theory Spec2Isabelle
  imports Complex_Main "HOL-Library.Product_Lexorder"
begin

section \<open>Text: characters and the string methods the parser calls\<close>

text \<open>
  A Python \<open>str\<close> is modelled as an Isabelle \<open>string\<close>, a list of characters with
  code points below 256. The character classes below are Python's on that range
  (\<open>str.isspace\<close>, the \<open>\s\<close>, \<open>\d\<close>, \<open>\w\<close> classes of \<open>re\<close>, the boundaries of
  \<open>str.splitlines\<close>). Case conversion is Python's on that range too, with two
  characters left as they are by \<open>upper\<close> because their capital lies above 255
  (code points 181 and 255); neither is an ASCII character, a digit or white space, so
  no test of the program can tell the difference.
\<close>

definition is_digit :: "char \<Rightarrow> bool" where
  "is_digit c = (let n = (of_char c :: nat) in 48 \<le> n \<and> n \<le> 57)"

definition is_space :: "char \<Rightarrow> bool" where
  "is_space c = (let n = (of_char c :: nat) in
     (9 \<le> n \<and> n \<le> 13) \<or> (28 \<le> n \<and> n \<le> 32) \<or> n = 133 \<or> n = 160)"

definition is_upper_az :: "char \<Rightarrow> bool" where
  "is_upper_az c = (let n = (of_char c :: nat) in 65 \<le> n \<and> n \<le> 90)"

definition is_lower_az :: "char \<Rightarrow> bool" where
  "is_lower_az c = (let n = (of_char c :: nat) in 97 \<le> n \<and> n \<le> 122)"

definition is_alpha_az :: "char \<Rightarrow> bool" where
  "is_alpha_az c = (is_upper_az c \<or> is_lower_az c)"

definition is_word :: "char \<Rightarrow> bool" where
  "is_word c = (let n = (of_char c :: nat) in
     is_digit c \<or> is_alpha_az c \<or> n = 95 \<or> n = 170 \<or> n = 178 \<or> n = 179 \<or> n = 181 \<or>
     n = 185 \<or> n = 186 \<or> n = 188 \<or> n = 189 \<or> n = 190 \<or>
     (192 \<le> n \<and> n \<noteq> 215 \<and> n \<noteq> 247))"

definition is_linebreak :: "char \<Rightarrow> bool" where
  "is_linebreak c = (let n = (of_char c :: nat) in
     (10 \<le> n \<and> n \<le> 13) \<or> (28 \<le> n \<and> n \<le> 30) \<or> n = 133)"

definition not_newline :: "char \<Rightarrow> bool" where
  "not_newline c = (c \<noteq> CHR 0x0A)"

definition lower_char :: "char \<Rightarrow> char" where
  "lower_char c = (let n = (of_char c :: nat) in
     if (65 \<le> n \<and> n \<le> 90) \<or> (192 \<le> n \<and> n \<le> 222 \<and> n \<noteq> 215)
     then char_of (n + 32) else c)"

definition upper_char :: "char \<Rightarrow> string" where
  "upper_char c = (let n = (of_char c :: nat) in
     if (97 \<le> n \<and> n \<le> 122) \<or> (224 \<le> n \<and> n \<le> 254 \<and> n \<noteq> 247)
     then [char_of (n - 32)]
     else if n = 223 then ''SS'' else [c])"

definition py_lower :: "string \<Rightarrow> string" where
  "py_lower s = map lower_char s"

definition py_upper :: "string \<Rightarrow> string" where
  "py_upper s = concat (map upper_char s)"

text \<open>\<open>s.startswith(k)\<close> and \<open>k in s\<close>.\<close>

fun py_startswith :: "string \<Rightarrow> string \<Rightarrow> bool" where
  "py_startswith s [] = True"
| "py_startswith [] (k # ks) = False"
| "py_startswith (c # cs) (k # ks) = (c = k \<and> py_startswith cs ks)"

fun py_in :: "string \<Rightarrow> string \<Rightarrow> bool" where
  "py_in k [] = (k = [])"
| "py_in k (c # cs) = (py_startswith (c # cs) k \<or> py_in k cs)"

text \<open>\<open>s.strip()\<close>, \<open>s.rstrip(':')\<close>, \<open>s.split()\<close>, \<open>s.splitlines()\<close>,
  \<open>sep.join(xs)\<close>, \<open>s.zfill(2)\<close>.\<close>

definition py_strip :: "string \<Rightarrow> string" where
  "py_strip s = rev (dropWhile is_space (rev (dropWhile is_space s)))"

definition py_rstrip_chars :: "string \<Rightarrow> string \<Rightarrow> string" where
  "py_rstrip_chars s cs = rev (dropWhile (\<lambda>c. c \<in> set cs) (rev s))"

fun split_ws :: "string \<Rightarrow> string \<Rightarrow> string list" where
  "split_ws cur [] = (if cur = [] then [] else [cur])"
| "split_ws cur (c # cs) =
     (if is_space c then (if cur = [] then split_ws [] cs else cur # split_ws [] cs)
      else split_ws (cur @ [c]) cs)"

definition py_split :: "string \<Rightarrow> string list" where
  "py_split s = split_ws [] s"

fun splitlines_go :: "string \<Rightarrow> string \<Rightarrow> string list" where
  "splitlines_go cur [] = (if cur = [] then [] else [cur])"
| "splitlines_go cur [c] = (if is_linebreak c then [cur] else [cur @ [c]])"
| "splitlines_go cur (c # d # cs) =
     (if c = CHR 0x0D \<and> d = CHR 0x0A then cur # splitlines_go [] cs
      else if is_linebreak c then cur # splitlines_go [] (d # cs)
      else splitlines_go (cur @ [c]) (d # cs))"

definition py_splitlines :: "string \<Rightarrow> string list" where
  "py_splitlines s = splitlines_go [] s"

fun py_join :: "string \<Rightarrow> string list \<Rightarrow> string" where
  "py_join sep [] = []"
| "py_join sep [x] = x"
| "py_join sep (x # y # ys) = x @ sep @ py_join sep (y # ys)"

definition zfill2 :: "string \<Rightarrow> string" where
  "zfill2 s = (if length s < 2 then replicate (2 - length s) (CHR ''0'') @ s else s)"

text \<open>\<open>s.replace(old, new)\<close> for a non-empty \<open>old\<close>: occurrences are replaced from the
  left and do not overlap. The counter is the number of characters of the occurrence
  just replaced that are still to be passed over.\<close>

fun replace_go :: "string \<Rightarrow> string \<Rightarrow> nat \<Rightarrow> string \<Rightarrow> string" where
  "replace_go old new k [] = []"
| "replace_go old new (Suc k) (c # cs) = replace_go old new k cs"
| "replace_go old new 0 (c # cs) =
     (if py_startswith (c # cs) old then new @ replace_go old new (length old - 1) cs
      else c # replace_go old new 0 cs)"

definition py_replace :: "string \<Rightarrow> string \<Rightarrow> string \<Rightarrow> string" where
  "py_replace s old new = replace_go old new 0 s"

text \<open>\<open>Path(p).name\<close> on a POSIX path: the last component that is neither empty nor
  \<open>.\<close>, and the empty string when there is none.\<close>

fun split_slash :: "string \<Rightarrow> string \<Rightarrow> string list" where
  "split_slash cur [] = [cur]"
| "split_slash cur (c # cs) =
     (if c = CHR ''/'' then cur # split_slash [] cs else split_slash (cur @ [c]) cs)"

definition path_name :: "string \<Rightarrow> string" where
  "path_name p =
     (case filter (\<lambda>c. c \<noteq> [] \<and> c \<noteq> ''.'') (split_slash [] p) of
        [] \<Rightarrow> []
      | x # xs \<Rightarrow> last (x # xs))"

text \<open>Decimal numerals: \<open>int(s)\<close> on a string of digits, \<open>str(n)\<close>, and the format
  \<open>{n:02d}\<close>.\<close>

definition digit_val :: "char \<Rightarrow> nat" where
  "digit_val c = of_char c - 48"

definition nat_of_digits :: "string \<Rightarrow> nat" where
  "nat_of_digits s = foldl (\<lambda>a c. 10 * a + digit_val c) 0 s"

definition digit_char :: "nat \<Rightarrow> char" where
  "digit_char n = char_of (48 + n)"

fun str_nat :: "nat \<Rightarrow> string" where
  "str_nat n = (if n < 10 then [digit_char n] else str_nat (n div 10) @ [digit_char (n mod 10)])"

declare str_nat.simps [simp del]

definition str_int :: "int \<Rightarrow> string" where
  "str_int i = (if i < 0 then CHR ''-'' # str_nat (nat (- i)) else str_nat (nat i))"

definition fmt02 :: "nat \<Rightarrow> string" where
  "fmt02 n = zfill2 (str_nat n)"

section \<open>Regular expressions\<close>

text \<open>
  The patterns of the program are written as terms of the type \<open>rx\<close> and matched by a
  backtracking matcher that returns every way of matching, in the order in which
  Python's \<open>re\<close> tries them: the first element of the list is the match \<open>re\<close> reports.
  A repetition applies to a character class (all the repetitions of the program do);
  \<open>r?\<close> is \<open>Alt r Eps\<close> and the lazy \<open>r??\<close> is \<open>Alt Eps r\<close>. A matcher state is the
  character before the current position (if any) and the rest of the subject; the
  captured groups are an association list, the latest capture first.
\<close>

datatype rx =
    Chr char
  | Cls "char \<Rightarrow> bool"
  | Eps
  | Seq rx rx
  | Alt rx rx
  | Rep "char \<Rightarrow> bool" bool nat "nat option"
  | Grp nat rx
  | Bol
  | Eol
  | Wordb

type_synonym mstate = "char option \<times> string"
type_synonym caps = "(nat \<times> string) list"

text \<open>With \<open>re.I\<close> a pattern character or class matches a subject character when it
  matches the character or one of its case variants. Every pattern of the program is
  made of ASCII characters, so of the capitals only the ASCII ones matter.\<close>

definition upper_az :: "char \<Rightarrow> char" where
  "upper_az c = (if is_lower_az c then char_of ((of_char c :: nat) - 32) else c)"

definition ci :: "bool \<Rightarrow> (char \<Rightarrow> bool) \<Rightarrow> char \<Rightarrow> bool" where
  "ci ic q c = (q c \<or> (ic \<and> (q (lower_char c) \<or> q (upper_az c))))"

text \<open>\<open>rx_rep q greedy lo hi st\<close>: the states after between \<open>lo\<close> and \<open>hi\<close> characters of
  the class \<open>q\<close>, the longest first when greedy and the shortest first when lazy.\<close>

fun rx_rep :: "(char \<Rightarrow> bool) \<Rightarrow> bool \<Rightarrow> nat \<Rightarrow> nat option \<Rightarrow> mstate \<Rightarrow> mstate list" where
  "rx_rep q greedy lo hi (p, []) = (if lo = 0 then [(p, [])] else [])"
| "rx_rep q greedy lo hi (p, c # cs) =
     (let stop = (if lo = 0 then [(p, c # cs)] else []);
          more = (if hi \<noteq> Some 0 \<and> q c
                  then rx_rep q greedy (lo - 1) (map_option (\<lambda>h. h - 1) hi) (Some c, cs)
                  else [])
      in if greedy then more @ stop else stop @ more)"

definition at_wordb :: "mstate \<Rightarrow> bool" where
  "at_wordb st =
     ((case fst st of None \<Rightarrow> False | Some a \<Rightarrow> is_word a) \<noteq>
      (case snd st of [] \<Rightarrow> False | b # bs \<Rightarrow> is_word b))"

fun rx_m :: "bool \<Rightarrow> rx \<Rightarrow> mstate \<times> caps \<Rightarrow> (mstate \<times> caps) list" where
  "rx_m ic (Chr a) ((p, s), g) =
     (case s of [] \<Rightarrow> [] | c # cs \<Rightarrow> if ci ic (\<lambda>x. x = a) c then [((Some c, cs), g)] else [])"
| "rx_m ic (Cls q) ((p, s), g) =
     (case s of [] \<Rightarrow> [] | c # cs \<Rightarrow> if ci ic q c then [((Some c, cs), g)] else [])"
| "rx_m ic Eps st = [st]"
| "rx_m ic (Seq r1 r2) st = concat (map (rx_m ic r2) (rx_m ic r1 st))"
| "rx_m ic (Alt r1 r2) st = rx_m ic r1 st @ rx_m ic r2 st"
| "rx_m ic (Rep q greedy lo hi) ((p, s), g) = map (\<lambda>st'. (st', g)) (rx_rep (ci ic q) greedy lo hi (p, s))"
| "rx_m ic (Grp n r) ((p, s), g) =
     map (\<lambda>((p', s'), g'). ((p', s'), (n, take (length s - length s') s) # g')) (rx_m ic r ((p, s), g))"
| "rx_m ic Bol ((p, s), g) = (if p = None then [((p, s), g)] else [])"
| "rx_m ic Eol ((p, s), g) = (if s = [] \<or> s = [CHR 0x0A] then [((p, s), g)] else [])"
| "rx_m ic Wordb (st, g) = (if at_wordb st then [(st, g)] else [])"

definition seqs :: "rx list \<Rightarrow> rx" where
  "seqs rs = foldr Seq rs Eps"

definition alts :: "rx list \<Rightarrow> rx" where
  "alts rs = foldr Alt (butlast rs) (last rs)"

definition lit :: "string \<Rightarrow> rx" where
  "lit s = seqs (map Chr s)"

definition opt :: "rx \<Rightarrow> rx" where
  "opt r = Alt r Eps"

definition opt_lazy :: "rx \<Rightarrow> rx" where
  "opt_lazy r = Alt Eps r"

definition in_range :: "char \<Rightarrow> char \<Rightarrow> char \<Rightarrow> bool" where
  "in_range a b c = ((of_char a :: nat) \<le> of_char c \<and> (of_char c :: nat) \<le> of_char b)"

text \<open>A match: the text matched and the groups. \<open>m_group m n\<close> is \<open>m.group(n)\<close> for a
  group that took part in the match.\<close>

record rmatch =
  matched :: string
  groups :: caps

definition mk_match :: "string \<Rightarrow> mstate \<times> caps \<Rightarrow> rmatch" where
  "mk_match s r = \<lparr> matched = take (length s - length (snd (fst r))) s, groups = snd r \<rparr>"

definition m_group :: "rmatch \<Rightarrow> nat \<Rightarrow> string" where
  "m_group m n = (case map_of (groups m) n of None \<Rightarrow> [] | Some w \<Rightarrow> w)"

text \<open>\<open>re.match\<close>, \<open>re.fullmatch\<close>, \<open>re.search\<close> (the leftmost start at which the
  pattern matches) and \<open>re.sub\<close> (for a pattern that matches no empty string).\<close>

definition re_match_at :: "bool \<Rightarrow> rx \<Rightarrow> mstate \<Rightarrow> rmatch option" where
  "re_match_at ic r st = (case rx_m ic r (st, []) of [] \<Rightarrow> None | x # xs \<Rightarrow> Some (mk_match (snd st) x))"

definition re_match :: "bool \<Rightarrow> rx \<Rightarrow> string \<Rightarrow> rmatch option" where
  "re_match ic r s = re_match_at ic r (None, s)"

definition re_fullmatch :: "bool \<Rightarrow> rx \<Rightarrow> string \<Rightarrow> rmatch option" where
  "re_fullmatch ic r s =
     (case filter (\<lambda>x. snd (fst x) = []) (rx_m ic r ((None, s), [])) of
        [] \<Rightarrow> None | x # xs \<Rightarrow> Some (mk_match s x))"

fun re_search_at :: "bool \<Rightarrow> rx \<Rightarrow> char option \<Rightarrow> string \<Rightarrow> rmatch option" where
  "re_search_at ic r p [] = re_match_at ic r (p, [])"
| "re_search_at ic r p (c # cs) =
     (case re_match_at ic r (p, c # cs) of
        Some m \<Rightarrow> Some m
      | None \<Rightarrow> re_search_at ic r (Some c) cs)"

definition re_search :: "bool \<Rightarrow> rx \<Rightarrow> string \<Rightarrow> rmatch option" where
  "re_search ic r s = re_search_at ic r None s"

fun re_sub_go :: "bool \<Rightarrow> rx \<Rightarrow> (rmatch \<Rightarrow> string) \<Rightarrow> nat \<Rightarrow> char option \<Rightarrow> string \<Rightarrow> string" where
  "re_sub_go ic r repl k p [] = []"
| "re_sub_go ic r repl (Suc k) p (c # cs) = re_sub_go ic r repl k (Some c) cs"
| "re_sub_go ic r repl 0 p (c # cs) =
     (case re_match_at ic r (p, c # cs) of
        None \<Rightarrow> c # re_sub_go ic r repl 0 (Some c) cs
      | Some m \<Rightarrow>
          if matched m = [] then c # re_sub_go ic r repl 0 (Some c) cs
          else repl m @ re_sub_go ic r repl (length (matched m) - 1) (Some c) cs)"

definition re_sub :: "bool \<Rightarrow> rx \<Rightarrow> (rmatch \<Rightarrow> string) \<Rightarrow> string \<Rightarrow> string" where
  "re_sub ic r repl s = re_sub_go ic r repl 0 None s"

section \<open>Exceptions, and what the program reads from outside\<close>

text \<open>
  An exception is a value. \<open>LibError\<close> is an error of the PDF library or the file
  system with its message; \<open>IndexError\<close> is Python's for \<open>pages[0]\<close> on a document
  with no page; \<open>ValueError\<close> is \<open>float\<close>'s, with the string it refused;
  \<open>AttributeError\<close> is Python's for \<open>.lower()\<close> called on a function.
\<close>

datatype exn = LibError string | IndexError | ValueError string | AttributeError

definition exn_str :: "exn \<Rightarrow> string" where
  "exn_str e = (case e of
       LibError m \<Rightarrow> m
     | IndexError \<Rightarrow> ''list index out of range''
     | ValueError s \<Rightarrow> ''could not convert string to float: '' @ [CHR 0x27] @ s @ [CHR 0x27]
     | AttributeError \<Rightarrow> [CHR 0x27] @ ''function'' @ [CHR 0x27] @ '' object has no attribute '' @
         [CHR 0x27] @ ''lower'' @ [CHR 0x27])"

definition ebind :: "exn + 'a \<Rightarrow> ('a \<Rightarrow> exn + 'b) \<Rightarrow> exn + 'b" where
  "ebind x f = (case x of Inl e \<Rightarrow> Inl e | Inr v \<Rightarrow> f v)"

fun efold :: "('a \<Rightarrow> 's \<Rightarrow> exn + 's) \<Rightarrow> 'a list \<Rightarrow> 's \<Rightarrow> exn + 's" where
  "efold f [] s = Inr s"
| "efold f (x # xs) s = (case f x s of Inl e \<Rightarrow> Inl e | Inr s' \<Rightarrow> efold f xs s')"

text \<open>
  A word of a page as \<open>extract_words\<close> returns it: its text, its horizontal start,
  its vertical top, and the \<open>upright\<close> entry, which may be absent. A position is a
  floating-point number, here the rational it stands for. Comparing two positions is
  exact; a sum, a difference or a quotient of floating-point numbers is the exact
  result rounded to the nearest floating-point number, and \<open>fl_round\<close> of the world is
  that rounding. A page gives its text (\<open>extract_text\<close>, which may return \<open>None\<close>) and
  its words for given tolerances; both calls may raise. The world gives, for a path,
  whether it exists, the pages of the PDF document there (or the exception of
  \<open>pdfplumber.open\<close>), the current month and year, and the text of a traceback.
\<close>

record word =
  w_text :: string
  w_x0 :: rat
  w_top :: rat
  w_upright :: "bool option"

record page =
  extract_text :: "exn + string option"
  extract_words :: "int \<Rightarrow> int \<Rightarrow> exn + word list"

record world =
  path_exists :: "string \<Rightarrow> exn + bool"
  pdf_open :: "string \<Rightarrow> exn + page list"
  now_month :: nat
  now_year :: int
  format_exc :: "exn \<Rightarrow> string"
  fl_round :: "rat \<Rightarrow> rat"

text \<open>
  An amount is a number of cents: every amount of the program is \<open>float\<close> of a numeral
  with two decimals, or its negation, and the claims are about its sign and about
  whether it is zero, which the cents keep. \<open>float_2dp\<close> is \<open>float\<close> on the numerals
  that reach it (an optional sign, digits, a point and two digits); the strings it
  refuses are \<open>None\<close>, and \<open>py_float\<close> raises for them.
\<close>

definition float_2dp :: "string \<Rightarrow> int option" where
  "float_2dp s =
     (let neg = py_startswith s ''-'';
          u = (if py_startswith s ''-'' \<or> py_startswith s ''+'' then tl s else s);
          ip = takeWhile is_digit u;
          r = dropWhile is_digit u
      in case r of
           [d, a, b] \<Rightarrow>
             if d = CHR ''.'' \<and> is_digit a \<and> is_digit b
             then Some ((if neg then - 1 else 1) * int (100 * nat_of_digits ip + nat_of_digits [a, b]))
             else None
         | _ \<Rightarrow> None)"

definition py_float :: "string \<Rightarrow> exn + int" where
  "py_float s = (case float_2dp s of None \<Rightarrow> Inl (ValueError s) | Some v \<Rightarrow> Inr v)"

section \<open>Month and day: \<open>datetime.strptime\<close> for \<open>%b\<close> and \<open>%d\<close>\<close>

text \<open>
  \<open>strptime\<close> turns the format into a pattern (\<open>%b\<close>: the month abbreviations, \<open>%d\<close>:
  \<open>3[0-1]|[1-2]\d|0[1-9]|[1-9]| [1-9]\<close>, white space in the format: \<open>\s+\<close>), matches
  it ignoring case, refuses a match that leaves text over, and builds a date of the
  year 1900, which refuses a day the month does not have (February has 28).
  The result here is the month and the day, \<open>None\<close> where \<open>strptime\<close> raises.
\<close>

definition MONTHS :: "string list" where
  "MONTHS = [''jan'', ''feb'', ''mar'', ''apr'', ''may'', ''jun'',
             ''jul'', ''aug'', ''sep'', ''oct'', ''nov'', ''dec'']"

definition fmt_b :: rx where
  "fmt_b = Grp 1 (alts (map lit MONTHS))"

definition fmt_d :: rx where
  "fmt_d = Grp 2 (alts [
     Seq (Chr CHR ''3'') (Cls (in_range CHR ''0'' CHR ''1'')),
     Seq (Cls (in_range CHR ''1'' CHR ''2'')) (Cls is_digit),
     Seq (Chr CHR ''0'') (Cls (in_range CHR ''1'' CHR ''9'')),
     Cls (in_range CHR ''1'' CHR ''9''),
     Seq (Chr CHR '' '') (Cls (in_range CHR ''1'' CHR ''9''))])"

definition fmt_b_sp_d :: rx where
  "fmt_b_sp_d = seqs [fmt_b, Rep is_space True 1 None, fmt_d]"

definition fmt_b_d :: rx where
  "fmt_b_d = seqs [fmt_b, fmt_d]"

fun index_of :: "'a \<Rightarrow> 'a list \<Rightarrow> nat option" where
  "index_of x [] = None"
| "index_of x (y # ys) = (if x = y then Some 0 else map_option Suc (index_of x ys))"

definition days_in_month :: "nat \<Rightarrow> nat" where
  "days_in_month mo = [31, 28, 31, 30, 31, 30, 31, 31, 30, 31, 30, 31] ! (mo - 1)"

definition strptime :: "rx \<Rightarrow> string \<Rightarrow> (nat \<times> nat) option" where
  "strptime fmt s =
     (case re_match True fmt s of
        None \<Rightarrow> None
      | Some m \<Rightarrow>
          if length (matched m) \<noteq> length s then None
          else (case index_of (py_lower (m_group m 1)) MONTHS of
                  None \<Rightarrow> None
                | Some i \<Rightarrow>
                    let mo = i + 1;
                        dy = (case map_of (groups m) 2 of
                                None \<Rightarrow> 1
                              | Some d \<Rightarrow> nat_of_digits (py_strip d))
                    in if 1 \<le> dy \<and> dy \<le> days_in_month mo then Some (mo, dy) else None))"

section \<open>Account detection\<close>

text \<open>The patterns of \<open>ACCOUNT_PATTERNS\<close>, each detector the conjunction of two
  searches in the file name, and \<open>KEYWORD_MAP\<close> in the order it is written.\<close>

definition LONG_DATE :: rx where
  \<comment> \<open>\<open>[a-zA-Z]+\s+\d{1,2},\s+\d{4}\<close>\<close>
  "LONG_DATE = seqs [Rep is_alpha_az True 1 None, Rep is_space True 1 None,
     Rep is_digit True 1 (Some 2), Chr CHR '','', Rep is_space True 1 None,
     Rep is_digit True 4 (Some 4)]"

definition BMO_CAD_NAME :: rx where
  \<comment> \<open>\<open>MC1785|BMO.*CAD|CAD.*BMO\<close>\<close>
  "BMO_CAD_NAME = alts [lit ''MC1785'',
     seqs [lit ''BMO'', Rep not_newline True 0 None, lit ''CAD''],
     seqs [lit ''CAD'', Rep not_newline True 0 None, lit ''BMO'']]"

definition BMO_US_NAME :: rx where
  \<comment> \<open>\<open>USD|US.*MC|BMO.*USD\<close>\<close>
  "BMO_US_NAME = alts [lit ''USD'',
     seqs [lit ''US'', Rep not_newline True 0 None, lit ''MC''],
     seqs [lit ''BMO'', Rep not_newline True 0 None, lit ''USD'']]"

definition TD_CC_NAME :: rx where
  \<comment> \<open>\<open>TD.*(CC|Visa|Credit)\<close>\<close>
  "TD_CC_NAME = seqs [lit ''TD'', Rep not_newline True 0 None,
     Grp 1 (alts [lit ''CC'', lit ''Visa'', lit ''Credit''])]"

definition TD_CC_SUFFIX :: rx where
  \<comment> \<open>\<open>[_-]\d{4}\.pdf$\<close>\<close>
  "TD_CC_SUFFIX = seqs [Cls (\<lambda>c. c = CHR ''_'' \<or> c = CHR ''-''), Rep is_digit True 4 (Some 4),
     Chr CHR ''.'', lit ''pdf'', Eol]"

definition TD_CHK_NAME :: rx where
  \<comment> \<open>\<open>TD.*(Chk|Check|All.Inclusive|Saving)\<close>\<close>
  "TD_CHK_NAME = seqs [lit ''TD'', Rep not_newline True 0 None,
     Grp 1 (alts [lit ''Chk'', lit ''Check'',
       seqs [lit ''All'', Cls not_newline, lit ''Inclusive''], lit ''Saving''])]"

definition TD_CHK_SUFFIX :: rx where
  \<comment> \<open>\<open>_\d{4}\.pdf$\<close>\<close>
  "TD_CHK_SUFFIX = seqs [Chr CHR ''_'', Rep is_digit True 4 (Some 4), Chr CHR ''.'', lit ''pdf'', Eol]"

definition searches :: "bool \<Rightarrow> rx \<Rightarrow> string \<Rightarrow> bool" where
  "searches ic r s = (re_search ic r s \<noteq> None)"

definition ACCOUNT_PATTERNS :: "(string \<times> (string \<Rightarrow> bool)) list" where
  "ACCOUNT_PATTERNS = [
     (''BMO CAD Credit Card'', \<lambda>fn. searches True BMO_CAD_NAME fn \<and> searches False LONG_DATE fn),
     (''BMO US Credit Card'', \<lambda>fn. searches True BMO_US_NAME fn \<and> searches False LONG_DATE fn),
     (''TD CAD Credit Card'', \<lambda>fn. searches True TD_CC_NAME fn \<and> searches True TD_CC_SUFFIX fn),
     (''TD CAD Checking'', \<lambda>fn. searches True TD_CHK_NAME fn \<and> searches True TD_CHK_SUFFIX fn)]"

definition KEYWORD_MAP :: "(string \<times> string) list" where
  "KEYWORD_MAP = [
     (''bmo cad'', ''BMO CAD Credit Card''),
     (''bmo usd'', ''BMO US Credit Card''),
     (''bmo us'', ''BMO US Credit Card''),
     (''td cc'', ''TD CAD Credit Card''),
     (''td credit'', ''TD CAD Credit Card''),
     (''td checking'', ''TD CAD Checking''),
     (''td chk'', ''TD CAD Checking'')]"

definition fuzzy_fallback :: "string \<Rightarrow> string option" where
  "fuzzy_fallback fn_upper =
     (if searches False (lit ''BMO'') fn_upper then
        (if searches False (alts [lit ''US'', lit ''USD'']) fn_upper then Some ''BMO US Credit Card''
         else Some ''BMO CAD Credit Card'')
      else if searches False (seqs [Wordb, lit ''TD'', Wordb]) fn_upper then
        (if searches False (alts [lit ''CHK'', lit ''CHECK'', lit ''SAVING'',
              seqs [lit ''ALL'', Cls not_newline, lit ''INCLUSIVE'']]) fn_upper
         then Some ''TD CAD Checking''
         else Some ''TD CAD Credit Card'')
      else None)"

definition by_filename :: "string \<Rightarrow> string option" where
  "by_filename fn =
     (case find (\<lambda>(name, detector). detector fn) ACCOUNT_PATTERNS of
        Some (name, detector) \<Rightarrow> Some name
      | None \<Rightarrow> fuzzy_fallback (py_upper fn))"

text \<open>
  \<open>detect_account\<close>. With a hint that is not empty: the first keyword of
  \<open>KEYWORD_MAP\<close> that occurs in the lower-case hint decides. With none, the loop
  \<open>for _, name in ACCOUNT_PATTERNS\<close> binds \<open>name\<close> to the second component of the
  pair, the detector function, and \<open>name.lower()\<close> raises \<open>AttributeError\<close> at the
  first pair. Without a hint the file name decides.
\<close>

definition detect_account :: "string \<Rightarrow> string option \<Rightarrow> exn + string option" where
  "detect_account filepath hint =
     (let fn = path_name filepath in
      if hint \<noteq> None \<and> hint \<noteq> Some [] then
        (let h = py_lower (the hint) in
         case find (\<lambda>(k, v). py_in k h) KEYWORD_MAP of
           Some (k, v) \<Rightarrow> Inr (Some v)
         | None \<Rightarrow>
             (case ACCOUNT_PATTERNS of
                [] \<Rightarrow> Inr (by_filename fn)
              | (label, name) # rest \<Rightarrow> Inl AttributeError))
      else Inr (by_filename fn))"

section \<open>The BMO parser\<close>

record transaction =
  Date :: string
  Description :: string
  Amount :: int

definition BMO_DATE :: rx where
  \<comment> \<open>\<open>([a-zA-Z]+)\s+\d{1,2},\s+(\d{4})\<close>, ignoring case\<close>
  "BMO_DATE = seqs [Grp 1 (Rep is_alpha_az True 1 None), Rep is_space True 1 None,
     Rep is_digit True 1 (Some 2), Chr CHR '','', Rep is_space True 1 None,
     Grp 2 (Rep is_digit True 4 (Some 4))]"

definition date_tok :: rx where
  \<comment> \<open>\<open>[A-Z][a-z]{2}\.??\s?\d{1,2}\<close>\<close>
  "date_tok = seqs [Cls is_upper_az, Rep is_lower_az True 2 (Some 2), opt_lazy (Chr CHR ''.''),
     Rep is_space True 0 (Some 1), Rep is_digit True 1 (Some 2)]"

definition amount_tok :: rx where
  \<comment> \<open>\<open>-?[\d,]+\.\d{2}(?:\s?CR)?\<close>\<close>
  "amount_tok = seqs [opt (Chr CHR ''-''), Rep (\<lambda>c. is_digit c \<or> c = CHR '','') True 1 None,
     Chr CHR ''.'', Rep is_digit True 2 (Some 2),
     opt (seqs [Rep is_space True 0 (Some 1), Chr CHR ''C'', Chr CHR ''R''])]"

definition BMO_TRANS :: rx where
  \<comment> \<open>\<open>^(date_tok)\s+(date_tok)\s+(.*?)\s+(amount_tok)\b\<close>, ignoring case\<close>
  "BMO_TRANS = seqs [Bol, Grp 1 date_tok, Rep is_space True 1 None, Grp 2 date_tok,
     Rep is_space True 1 None, Grp 3 (Rep not_newline False 0 None), Rep is_space True 1 None,
     Grp 4 amount_tok, Wordb]"

definition bmo_fmt :: "world \<Rightarrow> string \<Rightarrow> string" where
  "bmo_fmt w p =
     (case pdf_open w p of
        Inl e \<Rightarrow> ''modern''
      | Inr pages \<Rightarrow>
          (case pages of
             [] \<Rightarrow> ''modern''
           | pg # pgs \<Rightarrow>
               (case extract_text pg of
                  Inl e \<Rightarrow> ''modern''
                | Inr txt \<Rightarrow>
                    let t = py_replace (py_upper (case txt of None \<Rightarrow> [] | Some u \<Rightarrow> u)) '' '' []
                    in if py_in ''REFERENCENO'' t then ''legacy'' else ''modern'')))"

definition bmo_my :: "world \<Rightarrow> string \<Rightarrow> nat \<times> int" where
  "bmo_my w p =
     (case re_search True BMO_DATE (path_name p) of
        None \<Rightarrow> (now_month w, now_year w)
      | Some m \<Rightarrow>
          let mi = (case strptime fmt_b (take 3 (m_group m 1)) of
                      None \<Rightarrow> 1
                    | Some (mo, dy) \<Rightarrow> mo)
          in (mi, int (nat_of_digits (m_group m 2))))"

definition BMO_TOKEN :: rx where
  \<comment> \<open>\<open>^([A-Za-z]{3})\s*(\d{1,2})$\<close>\<close>
  "BMO_TOKEN = seqs [Bol, Grp 1 (Rep is_alpha_az True 3 (Some 3)), Rep is_space True 0 None,
     Grp 2 (Rep is_digit True 1 (Some 2)), Eol]"

text \<open>The month and day of a BMO date token, \<open>None\<close> where \<open>_bmo_date\<close> returns
  the token as it is (no match, or \<open>strptime\<close> raises).\<close>

definition bmo_md :: "string \<Rightarrow> (nat \<times> nat) option" where
  "bmo_md tok =
     (let c = re_sub False (Chr CHR ''.'') (\<lambda>m. []) (py_strip tok) in
      case re_match False BMO_TOKEN c of
        None \<Rightarrow> None
      | Some m \<Rightarrow> strptime fmt_b_sp_d (m_group m 1 @ '' '' @ zfill2 (m_group m 2)))"

definition bmo_date :: "string \<Rightarrow> nat \<Rightarrow> int \<Rightarrow> string" where
  "bmo_date tok sm sy =
     (case bmo_md tok of
        None \<Rightarrow> tok
      | Some (mo, dy) \<Rightarrow>
          let yr = sy;
              yr = (if mo = 12 \<and> sm = 1 then yr - 1
                    else if mo = 1 \<and> sm = 12 then yr + 1
                    else yr)
          in str_int yr @ ''-'' @ fmt02 mo @ ''-'' @ fmt02 dy)"

definition bmo_amt :: "string \<Rightarrow> exn + int" where
  "bmo_amt s0 =
     (let s = py_strip (py_replace (py_replace s0 '','' []) ''$'' []);
          cr = py_in ''CR'' (py_upper s)
      in ebind (py_float (py_strip (py_replace (py_upper s) ''CR'' [])))
           (\<lambda>n. Inr (if cr then n else - n)))"

definition bmo_isref :: "string \<Rightarrow> bool" where
  \<comment> \<open>\<open>\d{8,}\<close> or \<open>\d{2,}-[\d-]{4,}\<close>, the whole token\<close>
  "bmo_isref t0 =
     (let t = py_strip t0 in
        re_fullmatch False (Rep is_digit True 8 None) t \<noteq> None \<or>
        re_fullmatch False (seqs [Rep is_digit True 2 None, Chr CHR ''-'',
            Rep (\<lambda>c. is_digit c \<or> c = CHR ''-'') True 4 None]) t \<noteq> None)"

definition bmo_human :: "string \<Rightarrow> string" where
  "bmo_human d0 =
     (let d = re_sub False (seqs [Grp 1 (Cls is_lower_az), Grp 2 (Cls is_upper_az)])
                (\<lambda>m. m_group m 1 @ '' '' @ m_group m 2) d0;
          d = re_sub False (seqs [Grp 1 (Cls is_alpha_az), Grp 2 (Cls is_digit)])
                (\<lambda>m. m_group m 1 @ '' '' @ m_group m 2) d;
          d = re_sub False (seqs [Grp 1 (Cls is_digit), Grp 2 (Cls is_alpha_az)])
                (\<lambda>m. m_group m 1 @ '' '' @ m_group m 2) d
      in py_strip (re_sub False (Rep is_space True 1 None) (\<lambda>m. '' '') d))"

text \<open>The body of the loop of \<open>parse_bmo\<close> for one line: \<open>None\<close> for a line that is
  skipped, the row otherwise.\<close>

definition bmo_line :: "string \<Rightarrow> nat \<Rightarrow> int \<Rightarrow> string \<Rightarrow> exn + transaction option" where
  "bmo_line fmt sm sy line =
     (case re_match True BMO_TRANS (py_strip line) of
        None \<Rightarrow> Inr None
      | Some m \<Rightarrow>
          let desc = py_strip (m_group m 3);
              desc = (if fmt = ''legacy'' then
                        (let parts = py_split desc;
                             desc = (if parts \<noteq> [] \<and> bmo_isref (last parts)
                                     then py_strip (py_join '' '' (butlast parts))
                                     else desc)
                         in bmo_human desc)
                      else desc)
          in ebind (bmo_amt (m_group m 4))
               (\<lambda>a. Inr (Some \<lparr> Date = bmo_date (m_group m 1) sm sy, Description = desc, Amount = a \<rparr>)))"

definition parse_bmo :: "world \<Rightarrow> string \<Rightarrow> exn + transaction list" where
  "parse_bmo w p =
     (let (sm, sy) = bmo_my w p;
          fmt = bmo_fmt w p
      in ebind (pdf_open w p)
           (\<lambda>pages. efold (\<lambda>pg rows.
              ebind (extract_text pg)
                (\<lambda>txt. efold (\<lambda>line rows.
                           ebind (bmo_line fmt sm sy line)
                             (\<lambda>r. Inr (case r of None \<Rightarrow> rows | Some x \<Rightarrow> rows @ [x])))
                         (py_splitlines (case txt of None \<Rightarrow> [] | Some u \<Rightarrow> u)) rows))
              pages []))"

section \<open>The TD parser\<close>

definition td_up :: "page \<Rightarrow> int \<Rightarrow> exn + word list" where
  "td_up pg xt =
     ebind (extract_words pg xt 2)
       (\<lambda>ws. Inr (filter (\<lambda>w. case w_upright w of None \<Rightarrow> True | Some b \<Rightarrow> b) ws))"

text \<open>\<open>_td_lines\<close>: the words sorted by top, then by horizontal start (a stable sort),
  then cut into lines; the loop state is the lines so far, the current line and its
  anchor. \<open>rnd\<close> is the rounding of floating-point arithmetic.\<close>

definition td_lines :: "(rat \<Rightarrow> rat) \<Rightarrow> word list \<Rightarrow> rat \<Rightarrow> word list list" where
  "td_lines rnd words0 yt =
     (let words = sort_key (\<lambda>w. (w_top w, w_x0 w)) words0;
          (lines, cur, ct) =
            fold (\<lambda>w (lines, cur, ct).
                    let ct1 = (case ct of None \<Rightarrow> w_top w | Some c \<Rightarrow> c)
                    in if abs (rnd (w_top w - ct1)) \<le> yt then (lines, cur @ [w], Some ct1)
                       else ((if cur \<noteq> [] then lines @ [cur] else lines), [w], Some (w_top w)))
                 words ([], [], None)
      in if cur \<noteq> [] then lines @ [cur] else lines)"

definition TD_NAME_1 :: rx where
  \<comment> \<open>\<open>[-_]([a-zA-Z]{3})_\d{1,2}[_-](\d{4})\.pdf$\<close>\<close>
  "TD_NAME_1 = seqs [Cls (\<lambda>c. c = CHR ''-'' \<or> c = CHR ''_''), Grp 1 (Rep is_alpha_az True 3 (Some 3)),
     Chr CHR ''_'', Rep is_digit True 1 (Some 2), Cls (\<lambda>c. c = CHR ''_'' \<or> c = CHR ''-''),
     Grp 2 (Rep is_digit True 4 (Some 4)), Chr CHR ''.'', lit ''pdf'', Eol]"

definition TD_NAME_2 :: rx where
  \<comment> \<open>\<open>_([a-zA-Z]{3})_\d{1,2}-(\d{4})\.pdf$\<close>\<close>
  "TD_NAME_2 = seqs [Chr CHR ''_'', Grp 1 (Rep is_alpha_az True 3 (Some 3)),
     Chr CHR ''_'', Rep is_digit True 1 (Some 2), Chr CHR ''-'',
     Grp 2 (Rep is_digit True 4 (Some 4)), Chr CHR ''.'', lit ''pdf'', Eol]"

definition td_my_pat :: "rx \<Rightarrow> string \<Rightarrow> (nat \<times> int) option" where
  "td_my_pat pat fn =
     (case re_search True pat fn of
        None \<Rightarrow> None
      | Some m \<Rightarrow>
          (case strptime fmt_b (take 3 (m_group m 1)) of
             None \<Rightarrow> None
           | Some (mo, dy) \<Rightarrow> Some (mo, int (nat_of_digits (m_group m 2)))))"

definition td_my :: "world \<Rightarrow> string \<Rightarrow> nat \<times> int" where
  "td_my w fn =
     (case td_my_pat TD_NAME_1 fn of
        Some r \<Rightarrow> r
      | None \<Rightarrow>
          (case td_my_pat TD_NAME_2 fn of
             Some r \<Rightarrow> r
           | None \<Rightarrow> (now_month w, now_year w)))"

text \<open>The month and day of a TD date string, \<open>None\<close> where \<open>_td_date\<close> returns the
  string as it is (\<open>strptime\<close> raises).\<close>

definition td_md :: "string \<Rightarrow> (nat \<times> nat) option" where
  "td_md raw = strptime fmt_b_d raw"

definition td_date :: "string \<Rightarrow> nat \<Rightarrow> int \<Rightarrow> string" where
  "td_date raw sm sy =
     (case td_md raw of
        None \<Rightarrow> raw
      | Some (mo, dy) \<Rightarrow>
          let yr = sy;
              yr = (if mo = 12 \<and> sm = 1 then yr - 1
                    else if mo = 1 \<and> sm = 12 then yr + 1
                    else yr)
          in str_int yr @ ''-'' @ fmt02 mo @ ''-'' @ fmt02 dy)"

definition TD_AMT :: rx where
  \<comment> \<open>\<open>([\d,]+\.\d{2})\<close>\<close>
  "TD_AMT = Grp 1 (seqs [Rep (\<lambda>c. is_digit c \<or> c = CHR '','') True 1 None, Chr CHR ''.'',
     Rep is_digit True 2 (Some 2)])"

definition td_amt :: "string \<Rightarrow> exn + int" where
  "td_amt s =
     (case re_search False TD_AMT s of
        None \<Rightarrow> Inr 0
      | Some m \<Rightarrow> py_float (py_replace (m_group m 1) '','' []))"

text \<open>\<open>round(a, 2)\<close> leaves an amount of whole cents as it is.\<close>

definition round2 :: "int \<Rightarrow> int" where
  "round2 a = a"

definition td_type :: "world \<Rightarrow> string \<Rightarrow> exn + string" where
  "td_type w p =
     ebind (pdf_open w p)
       (\<lambda>pages. case pages of
           [] \<Rightarrow> Inl IndexError
         | pg # pgs \<Rightarrow>
             ebind (td_up pg 2)
               (\<lambda>ws. let texts = map (\<lambda>w. py_upper (w_text w)) ws
                      in Inr (if list_ex (\<lambda>t. py_in ''TRANSACTION'' t) texts \<and>
                                 list_ex (\<lambda>t. py_in ''POSTING'' t) texts
                              then ''credit_card'' else ''checking'')))"

definition MONTH_DAY :: rx where
  \<comment> \<open>\<open>(JAN|FEB|MAR|APR|MAY|JUN|JUL|AUG|SEP|OCT|NOV|DEC)\s*(\d{1,2})\<close>\<close>
  "MONTH_DAY = seqs [Grp 1 (alts (map lit [''JAN'', ''FEB'', ''MAR'', ''APR'', ''MAY'', ''JUN'',
       ''JUL'', ''AUG'', ''SEP'', ''OCT'', ''NOV'', ''DEC''])),
     Rep is_space True 0 None, Grp 2 (Rep is_digit True 1 (Some 2))]"

subsection \<open>The checking layout\<close>

definition chk_cols :: "(rat \<Rightarrow> rat) \<Rightarrow> word list \<Rightarrow> rat \<Rightarrow> (string \<rightharpoonup> rat)" where
  "chk_cols rnd words hy =
     fold (\<lambda>w cols.
        if abs (rnd (w_top w - hy)) \<le> 5 then
          (let t = py_rstrip_chars (py_strip (py_lower (w_text w))) '':'' in
             if py_startswith t ''desc'' then cols(''desc'' \<mapsto> w_x0 w)
             else if py_startswith t ''with'' then cols(''with'' \<mapsto> w_x0 w)
             else if py_startswith t ''dep'' then cols(''dep'' \<mapsto> w_x0 w)
             else if py_startswith t ''date'' then cols(''date'' \<mapsto> w_x0 w)
             else if py_startswith t ''bal'' then cols(''bal'' \<mapsto> w_x0 w)
             else cols)
        else cols) words Map.empty"

record chk_row =
  r_desc :: "string list"
  r_with :: "string list"
  r_dep :: "string list"
  r_date :: "string list"

definition chk_bucket :: "rat \<Rightarrow> rat \<Rightarrow> rat \<Rightarrow> rat \<Rightarrow> word list \<Rightarrow> chk_row" where
  "chk_bucket xde xwe xdpe xdte line =
     fold (\<lambda>w r.
        let x = w_x0 w in
          if x < xde then r\<lparr> r_desc := r_desc r @ [w_text w] \<rparr>
          else if x < xwe then r\<lparr> r_with := r_with r @ [w_text w] \<rparr>
          else if x < xdpe then r\<lparr> r_dep := r_dep r @ [w_text w] \<rparr>
          else if x < xdte then r\<lparr> r_date := r_date r @ [w_text w] \<rparr>
          else r)
       line \<lparr> r_desc = [], r_with = [], r_dep = [], r_date = [] \<rparr>"

definition CHK_SKIP :: "string list" where
  "CHK_SKIP = [''BALANCE FORWARD'', ''OPENING BALANCE'', ''CLOSING BALANCE'', ''TOTAL'', ''DAILY CLOSING'']"

text \<open>The description and date filters of a checking row.\<close>

definition chk_desc :: "chk_row \<Rightarrow> string" where
  "chk_desc r = py_strip (py_join '' '' (r_desc r))"

definition chk_dm :: "chk_row \<Rightarrow> rmatch option" where
  "chk_dm r = re_search False MONTH_DAY (py_upper (concat (r_date r)))"

definition chk_passes :: "chk_row \<Rightarrow> bool" where
  "chk_passes r =
     (\<not> (chk_desc r = [] \<or> list_ex (\<lambda>s. py_in s (py_upper (chk_desc r))) CHK_SKIP) \<and>
      chk_dm r \<noteq> None)"

text \<open>The body of the row loop of \<open>parse_td_chk\<close>: \<open>None\<close> for a row that is skipped.\<close>

definition chk_row_tx :: "nat \<Rightarrow> int \<Rightarrow> chk_row \<Rightarrow> exn + transaction option" where
  "chk_row_tx sm sy r =
     (let desc = chk_desc r in
      if desc = [] \<or> list_ex (\<lambda>s. py_in s (py_upper desc)) CHK_SKIP then Inr None
      else
        (case chk_dm r of
           None \<Rightarrow> Inr None
         | Some dm \<Rightarrow>
             let ws = py_strip (concat (r_with r));
                 dp = py_strip (concat (r_dep r))
             in ebind (if ws \<noteq> [] then ebind (td_amt ws) (\<lambda>a. Inr (Some (- a)))
                       else if dp \<noteq> [] then ebind (td_amt dp) (\<lambda>a. Inr (Some a))
                       else Inr None)
                  (\<lambda>amt. case amt of
                      None \<Rightarrow> Inr None
                    | Some a \<Rightarrow>
                        if a = 0 then Inr None
                        else Inr (Some \<lparr>
                          Date = td_date (m_group dm 1 @ zfill2 (m_group dm 2)) sm sy,
                          Description = py_strip (re_sub False (Rep is_space True 1 None) (\<lambda>m. '' '') desc),
                          Amount = round2 a \<rparr>))))"

definition chk_page :: "(rat \<Rightarrow> rat) \<Rightarrow> nat \<Rightarrow> int \<Rightarrow> page \<Rightarrow> transaction list \<Rightarrow> exn + transaction list" where
  "chk_page rnd sm sy pg rows =
     ebind (td_up pg 2)
       (\<lambda>words.
          if words = [] then Inr rows
          else
            (case find (\<lambda>w. py_startswith (py_lower (w_text w)) ''withdrawal'') words of
               None \<Rightarrow> Inr rows
             | Some hw \<Rightarrow>
                 let hy = w_top hw;
                     cols = chk_cols rnd words hy
                 in if cols ''with'' = None \<or> cols ''dep'' = None then Inr rows
                    else
                      (let xde = rnd (the (cols ''with'') - 5);
                           xwe = rnd (the (cols ''dep'') - 5);
                           xdpe = rnd ((case cols ''date'' of None \<Rightarrow> rnd (the (cols ''dep'') + 80) | Some v \<Rightarrow> v) - 5);
                           xdte = rnd ((case cols ''bal'' of None \<Rightarrow> rnd (xdpe + 65) | Some v \<Rightarrow> v) - 5)
                       in efold (\<lambda>line rows.
                                   ebind (chk_row_tx sm sy (chk_bucket xde xwe xdpe xdte line))
                                     (\<lambda>r. Inr (case r of None \<Rightarrow> rows | Some x \<Rightarrow> rows @ [x])))
                            (td_lines rnd (filter (\<lambda>w. w_top w > rnd (hy + 5)) words) 4) rows)))"

definition parse_td_chk :: "world \<Rightarrow> string \<Rightarrow> nat \<Rightarrow> int \<Rightarrow> exn + transaction list" where
  "parse_td_chk w p sm sy =
     ebind (pdf_open w p) (\<lambda>pages. efold (chk_page (fl_round w) sm sy) pages [])"

subsection \<open>The credit-card layout\<close>

record raw_tx =
  DateRaw :: string
  RawDescription :: string
  RawAmount :: int

record cc_row =
  tx_date :: "string list"
  cc_desc :: "string list"
  cc_amount :: "word list"

definition cc_bucket :: "rat \<Rightarrow> rat \<Rightarrow> rat \<Rightarrow> word list \<Rightarrow> cc_row" where
  "cc_bucket xa xds xmid line =
     fold (\<lambda>w row.
        let x = w_x0 w in
          if x \<ge> xa then row\<lparr> cc_amount := cc_amount row @ [w] \<rparr>
          else if x \<ge> xds then row\<lparr> cc_desc := cc_desc row @ [w_text w] \<rparr>
          else if x < xmid then row\<lparr> tx_date := tx_date row @ [w_text w] \<rparr>
          else row)
       line \<lparr> tx_date = [], cc_desc = [], cc_amount = [] \<rparr>"

definition CC_STOP :: "string list" where
  "CC_STOP = [''TOTAL NEW'', ''TD MESSAGE'']"

definition CC_SKIP :: "string list" where
  "CC_SKIP = [''PREVIOUS STATEMENT'', ''STARTING BALANCE'', ''NET AMOUNT'']"

definition CARD_MASK :: rx where
  \<comment> \<open>\<open>\d{4}\s*\d{2}XX\<close>\<close>
  "CARD_MASK = seqs [Rep is_digit True 4 (Some 4), Rep is_space True 0 None,
     Rep is_digit True 2 (Some 2), Chr CHR ''X'', Chr CHR ''X'']"

text \<open>The fields of a line: its description, its date text and the text of its
  leftmost amount word.\<close>

definition row_desc :: "cc_row \<Rightarrow> string" where
  "row_desc row = py_strip (py_join '' '' (cc_desc row))"

definition row_ds :: "cc_row \<Rightarrow> string" where
  "row_ds row = py_upper (concat (tx_date row))"

definition row_ar :: "cc_row \<Rightarrow> string" where
  "row_ar row = (case sort_key w_x0 (cc_amount row) of [] \<Rightarrow> [] | a # as \<Rightarrow> w_text a)"

text \<open>The filters before a line is classified: \<open>cc_stops\<close> is the \<open>break\<close>,
  \<open>cc_skips\<close> the three \<open>continue\<close>s.\<close>

definition cc_stops :: "cc_row \<Rightarrow> bool" where
  "cc_stops row = list_ex (\<lambda>k. py_startswith (py_upper (row_desc row)) k) CC_STOP"

definition cc_skips :: "cc_row \<Rightarrow> bool" where
  "cc_skips row =
     ((list_ex (\<lambda>k. py_startswith (py_upper (row_desc row)) k) CC_SKIP \<or> row_desc row = []) \<or>
      py_strip (py_upper (row_desc row)) = ''ACTIVITY'' \<or>
      searches False CARD_MASK (row_desc row))"

text \<open>The body of the line loop of \<open>parse_td_cc\<close>: the flag says that the loop
  stops, the list is \<open>raw\<close> afterwards.\<close>

definition cc_line :: "cc_row \<Rightarrow> raw_tx list \<Rightarrow> exn + (bool \<times> raw_tx list)" where
  "cc_line row raw =
     (let desc = row_desc row;
          ds = row_ds row;
          ar = row_ar row
      in if cc_stops row then Inr (True, raw)
         else if cc_skips row then Inr (False, raw)
         else
           (let dm = re_search False MONTH_DAY ds;
                cr = py_startswith (py_strip ar) ''-''
            in ebind (td_amt ar)
                 (\<lambda>an. case dm of
                     Some m \<Rightarrow>
                       if an > 0 then
                         Inr (False, raw @ [\<lparr> DateRaw = m_group m 1 @ zfill2 (m_group m 2),
                                              RawDescription = desc,
                                              RawAmount = (if cr then an else - an) \<rparr>])
                       else if desc \<noteq> [] \<and> raw \<noteq> [] then
                         Inr (False, butlast raw @
                            [(last raw)\<lparr> RawDescription := RawDescription (last raw) @ '' '' @ desc \<rparr>])
                       else Inr (False, raw)
                   | None \<Rightarrow>
                       if desc \<noteq> [] \<and> raw \<noteq> [] then
                         Inr (False, butlast raw @
                            [(last raw)\<lparr> RawDescription := RawDescription (last raw) @ '' '' @ desc \<rparr>])
                       else Inr (False, raw))))"

fun cc_lines :: "rat \<Rightarrow> rat \<Rightarrow> rat \<Rightarrow> word list list \<Rightarrow> raw_tx list \<Rightarrow> exn + raw_tx list" where
  "cc_lines xa xds xmid [] raw = Inr raw"
| "cc_lines xa xds xmid (line # ls) raw =
     (case cc_line (cc_bucket xa xds xmid line) raw of
        Inl e \<Rightarrow> Inl e
      | Inr (stop, raw') \<Rightarrow> if stop then Inr raw' else cc_lines xa xds xmid ls raw')"

definition cc_xds :: "(rat \<Rightarrow> rat) \<Rightarrow> word list \<Rightarrow> rat \<Rightarrow> rat \<Rightarrow> rat" where
  "cc_xds rnd words hy xa =
     (case find (\<lambda>w. abs (rnd (w_top w - hy)) \<le> 5 \<and>
                     (py_in ''ACTIVITY'' (py_upper (w_text w)) \<or>
                      py_in ''DESCRIPTION'' (py_upper (w_text w)))) words of
        Some w \<Rightarrow> w_x0 w
      | None \<Rightarrow>
          (case map w_x0 (filter (\<lambda>w. abs (rnd (w_top w - hy)) \<le> 5 \<and> w_x0 w < xa) words) of
             [] \<Rightarrow> 140
           | x # xs \<Rightarrow> fold max xs x))"

definition cc_ym :: "(rat \<Rightarrow> rat) \<Rightarrow> word list \<Rightarrow> rat \<Rightarrow> rat option" where
  "cc_ym rnd words hy =
     (let twy = map (\<lambda>w. (py_upper (w_text w), w_top w))
                  (filter (\<lambda>w. w_top w > rnd (hy + 5)) words) in
      case find (\<lambda>(txt, t). txt = ''CONTINUED'') twy of
        Some (txt, t) \<Rightarrow> Some t
      | None \<Rightarrow>
          (case find (\<lambda>(txt, t). txt = ''TOTAL'' \<or> txt = ''TD'') twy of
             Some (txt, t) \<Rightarrow> Some t
           | None \<Rightarrow> None))"

definition cc_page :: "(rat \<Rightarrow> rat) \<Rightarrow> page \<Rightarrow> raw_tx list \<Rightarrow> exn + raw_tx list" where
  "cc_page rnd pg raw =
     ebind (td_up pg 1)
       (\<lambda>words.
          if words = [] then Inr raw
          else
            (case find (\<lambda>w. py_in ''AMOUNT'' (py_upper (w_text w)) \<and> py_in ''$'' (w_text w)) words of
               None \<Rightarrow> Inr raw
             | Some hw \<Rightarrow>
                 let hy = w_top hw;
                     xa = w_x0 hw;
                     xds = cc_xds rnd words hy xa;
                     xmid = rnd (xds / 2);
                     ym = cc_ym rnd words hy;
                     tw = filter (\<lambda>w. rnd (hy + 5) < w_top w \<and>
                                       (case ym of None \<Rightarrow> True | Some y \<Rightarrow> w_top w < y)) words
                 in cc_lines xa xds xmid (td_lines rnd tw 5) raw))"

definition parse_td_cc :: "world \<Rightarrow> string \<Rightarrow> nat \<Rightarrow> int \<Rightarrow> exn + transaction list" where
  "parse_td_cc w p sm sy =
     ebind (pdf_open w p)
       (\<lambda>pages. ebind (efold (cc_page (fl_round w)) pages [])
          (\<lambda>raw. Inr (map (\<lambda>t. \<lparr>
               Date = td_date (DateRaw t) sm sy,
               Description = py_strip (re_sub False (Rep is_space True 1 None) (\<lambda>m. '' '') (RawDescription t)),
               Amount = round2 (RawAmount t) \<rparr>) raw)))"

definition parse_td :: "world \<Rightarrow> string \<Rightarrow> exn + transaction list" where
  "parse_td w p =
     (let (sm, sy) = td_my w (path_name p) in
      ebind (td_type w p)
        (\<lambda>st. if st = ''credit_card'' then parse_td_cc w p sm sy else parse_td_chk w p sm sy))"

section \<open>The entry point\<close>

text \<open>The process prints one JSON value and ends with an exit status.\<close>

datatype json = JNull | JStr string | JInt int | JAmount int | JArr "json list"
  | JObj "(string \<times> json) list"

definition tx_json :: "transaction \<Rightarrow> json" where
  "tx_json t = JObj [(''Date'', JStr (Date t)), (''Description'', JStr (Description t)),
     (''Amount'', JAmount (Amount t))]"

definition json_opt :: "string option \<Rightarrow> json" where
  "json_opt v = (case v of None \<Rightarrow> JNull | Some s \<Rightarrow> JStr s)"

definition ok_result :: "string option \<Rightarrow> string \<Rightarrow> transaction list \<Rightarrow> json" where
  "ok_result account filename transactions = JObj [
     (''account'', json_opt account),
     (''filename'', JStr filename),
     (''transactions'', JArr (map tx_json transactions)),
     (''count'', JInt (int (length transactions))),
     (''error'', JNull)]"

definition error_result :: "world \<Rightarrow> string \<Rightarrow> exn \<Rightarrow> json" where
  "error_result w pdf_path e = JObj [
     (''account'', JNull),
     (''filename'', JStr (path_name pdf_path)),
     (''transactions'', JArr []),
     (''count'', JInt 0),
     (''error'', JStr (exn_str e)),
     (''traceback'', JStr (format_exc w e))]"

text \<open>The branch for an account that names neither issuer: the BMO parser first;
  with no row from it, the TD parser; an exception anywhere in that attempt runs the
  TD parser, and the account stays as it was.\<close>

definition try_both :: "world \<Rightarrow> string \<Rightarrow> string option \<Rightarrow> exn + (transaction list \<times> string option)" where
  "try_both w p account =
     (case ebind (parse_bmo w p)
             (\<lambda>ts. if ts = [] then
                      ebind (parse_td w p)
                        (\<lambda>ts'. Inr (ts', if ts' \<noteq> [] \<and> account = None
                                          then Some ''TD CAD Checking'' else account))
                    else Inr (ts, if account = None then Some ''BMO CAD Credit Card'' else account)) of
        Inr r \<Rightarrow> Inr r
      | Inl e \<Rightarrow> ebind (parse_td w p) (\<lambda>ts. Inr (ts, account)))"

definition run :: "world \<Rightarrow> string \<Rightarrow> string option \<Rightarrow> json \<times> nat" where
  "run w pdf_path hint =
     (case path_exists w pdf_path of
        Inl e \<Rightarrow> (error_result w pdf_path e, 1)
      | Inr ex \<Rightarrow>
          if \<not> ex then (JObj [(''error'', JStr (''File not found: '' @ pdf_path))], 1)
          else
            (case ebind (detect_account pdf_path hint)
                    (\<lambda>account.
                       if account \<noteq> None \<and> py_in ''BMO'' (the account)
                       then ebind (parse_bmo w pdf_path) (\<lambda>ts. Inr (ts, account))
                       else if account \<noteq> None \<and> py_in ''TD'' (the account)
                       then ebind (parse_td w pdf_path) (\<lambda>ts. Inr (ts, account))
                       else try_both w pdf_path account) of
               Inr (ts, account') \<Rightarrow> (ok_result account' (path_name pdf_path) ts, 0)
             | Inl e \<Rightarrow> (error_result w pdf_path e, 1)))"

text \<open>\<open>argv\<close> is \<open>sys.argv\<close>: the script's name, the path, and the hint if there is one.\<close>

definition main :: "world \<Rightarrow> string list \<Rightarrow> json \<times> nat" where
  "main w argv =
     (case argv of
        prog # pdf_path # rest \<Rightarrow> run w pdf_path (case rest of [] \<Rightarrow> None | h # hs \<Rightarrow> Some h)
      | _ \<Rightarrow> (JObj [(''error'', JStr ''Usage: pdf_parser.py <pdf_path> [account_hint]'')], 1))"

section \<open>Notions used in the statements\<close>

text \<open>The words a pattern can match, whatever the order in which the matcher tries
  them: the matcher only returns matches made of such words (\<open>rx_m_sound\<close> below).\<close>

fun rx_lang :: "bool \<Rightarrow> rx \<Rightarrow> string \<Rightarrow> bool" where
  "rx_lang ic (Chr a) w = (\<exists>c. w = [c] \<and> ci ic (\<lambda>x. x = a) c)"
| "rx_lang ic (Cls q) w = (\<exists>c. w = [c] \<and> ci ic q c)"
| "rx_lang ic Eps w = (w = [])"
| "rx_lang ic (Seq r1 r2) w = (\<exists>u v. w = u @ v \<and> rx_lang ic r1 u \<and> rx_lang ic r2 v)"
| "rx_lang ic (Alt r1 r2) w = (rx_lang ic r1 w \<or> rx_lang ic r2 w)"
| "rx_lang ic (Rep q greedy lo hi) w =
     (list_all (ci ic q) w \<and> lo \<le> length w \<and> (case hi of None \<Rightarrow> True | Some h \<Rightarrow> length w \<le> h))"
| "rx_lang ic (Grp n r) w = rx_lang ic r w"
| "rx_lang ic Bol w = (w = [])"
| "rx_lang ic Eol w = (w = [])"
| "rx_lang ic Wordb w = (w = [])"

text \<open>Characters of a numeral: a digit, the sign or the point.\<close>

definition numch :: "char \<Rightarrow> bool" where
  "numch c = (is_digit c \<or> c = CHR ''-'' \<or> c = CHR ''.'')"

text \<open>The suffix of an amount after its numeral: nothing, or \<open>CR\<close> in either case
  after at most one white-space character.\<close>

definition cr_part :: "string \<Rightarrow> bool" where
  "cr_part t = (t = [] \<or>
     (\<exists>c r. (c = CHR ''C'' \<or> c = CHR ''c'') \<and> (r = CHR ''R'' \<or> r = CHR ''r'') \<and> t = [c, r]) \<or>
     (\<exists>sp c r. is_space sp \<and> (c = CHR ''C'' \<or> c = CHR ''c'') \<and> (r = CHR ''R'' \<or> r = CHR ''r'') \<and>
        t = [sp, c, r]))"

text \<open>A numeral is suffixed \<open>CR\<close>, in any case, when its last two characters are.\<close>

definition cr_suffixed :: "string \<Rightarrow> bool" where
  "cr_suffixed s = (2 \<le> length s \<and> py_upper (drop (length s - 2) s) = ''CR'')"

text \<open>The form \<open>YYYY-MM-DD\<close>.\<close>

definition iso_date :: "string \<Rightarrow> bool" where
  "iso_date s = (length s = 10 \<and> list_all is_digit (take 4 s) \<and> s ! 4 = CHR ''-'' \<and>
     list_all is_digit (take 2 (drop 5 s)) \<and> s ! 7 = CHR ''-'' \<and> list_all is_digit (drop 8 s))"

text \<open>A field of a JSON object.\<close>

definition json_get :: "json \<Rightarrow> string \<Rightarrow> json option" where
  "json_get j k = (case j of JObj kvs \<Rightarrow> map_of kvs k | _ \<Rightarrow> None)"

section \<open>Concrete documents\<close>

text \<open>A world in which every path exists and holds a document of one page, with the
  given result of \<open>extract_text\<close> and the given words; and a world with no file. The
  positions of the words below are whole numbers under 1000: their sums, differences
  and halves are floating-point numbers, which rounding leaves as they are.\<close>

definition one_page_world :: "exn + string option \<Rightarrow> word list \<Rightarrow> world" where
  "one_page_world txt ws = \<lparr>
     path_exists = (\<lambda>p. Inr True),
     pdf_open = (\<lambda>p. Inr [\<lparr> extract_text = txt, extract_words = (\<lambda>xt yt. Inr ws) \<rparr>]),
     now_month = 11, now_year = 2026,
     format_exc = (\<lambda>e. ''Traceback (most recent call last): ...''),
     fl_round = (\<lambda>x. x) \<rparr>"

definition no_file_world :: world where
  "no_file_world = \<lparr>
     path_exists = (\<lambda>p. Inr False),
     pdf_open = (\<lambda>p. Inl (LibError ''No such file or directory'')),
     now_month = 11, now_year = 2026,
     format_exc = (\<lambda>e. ''Traceback (most recent call last): ...''),
     fl_round = (\<lambda>x. x) \<rparr>"

definition mk_word :: "string \<Rightarrow> rat \<Rightarrow> rat \<Rightarrow> word" where
  "mk_word t x y = \<lparr> w_text = t, w_x0 = x, w_top = y, w_upright = Some True \<rparr>"

text \<open>A page of the checking layout: the header row and one withdrawal.\<close>

definition chk_page_words :: "word list" where
  "chk_page_words = [
     mk_word ''Description'' 50 100, mk_word ''Withdrawals'' 250 100,
     mk_word ''Deposits'' 350 100, mk_word ''Date'' 450 100, mk_word ''Balance'' 520 100,
     mk_word ''RENT'' 50 120, mk_word ''50.00'' 255 120, mk_word ''JAN15'' 452 120]"

text \<open>A page of the credit-card layout: the header row, a transaction whose
  description continues on the next line, and a payment.\<close>

definition cc_page_words :: "word list" where
  "cc_page_words = [
     mk_word ''TRANSACTION'' 20 100, mk_word ''POSTING'' 80 100,
     mk_word ''ACTIVITY'' 150 100, mk_word ''AMOUNT($)'' 500 100,
     mk_word ''JAN'' 20 120, mk_word ''5'' 40 120, mk_word ''AMAZON'' 150 120,
     mk_word ''MKTPLACE'' 210 120, mk_word ''$45.67'' 500 120,
     mk_word ''SEATTLE'' 150 135, mk_word ''WA'' 210 135,
     mk_word ''JAN'' 20 150, mk_word ''7'' 40 150, mk_word ''PAYMENT'' 150 150,
     mk_word ''-$100.00'' 500 150]"

section \<open>Evaluation\<close>

text \<open>The defining equations, for running the model on a concrete input by
  rewriting.\<close>

lemmas ev = is_digit_def is_space_def is_upper_az_def is_lower_az_def is_alpha_az_def
  is_word_def is_linebreak_def not_newline_def lower_char_def upper_char_def py_lower_def
  py_upper_def py_strip_def py_rstrip_chars_def py_split_def py_splitlines_def zfill2_def
  py_replace_def path_name_def digit_val_def nat_of_digits_def digit_char_def str_int_def
  fmt02_def upper_az_def ci_def at_wordb_def seqs_def alts_def lit_def opt_def opt_lazy_def
  in_range_def mk_match_def m_group_def re_match_at_def re_match_def re_fullmatch_def
  re_search_def re_sub_def exn_str_def ebind_def float_2dp_def py_float_def MONTHS_def
  fmt_b_def fmt_d_def fmt_b_sp_d_def fmt_b_d_def days_in_month_def strptime_def LONG_DATE_def
  BMO_CAD_NAME_def BMO_US_NAME_def TD_CC_NAME_def TD_CC_SUFFIX_def TD_CHK_NAME_def
  TD_CHK_SUFFIX_def searches_def ACCOUNT_PATTERNS_def KEYWORD_MAP_def fuzzy_fallback_def
  by_filename_def detect_account_def BMO_DATE_def date_tok_def amount_tok_def BMO_TRANS_def
  bmo_fmt_def bmo_my_def BMO_TOKEN_def bmo_md_def bmo_date_def bmo_amt_def bmo_isref_def
  bmo_human_def bmo_line_def parse_bmo_def td_up_def td_lines_def TD_NAME_1_def TD_NAME_2_def
  td_my_pat_def td_my_def td_md_def td_date_def TD_AMT_def td_amt_def round2_def td_type_def
  MONTH_DAY_def chk_cols_def chk_bucket_def CHK_SKIP_def chk_desc_def chk_dm_def chk_passes_def
  chk_row_tx_def chk_page_def parse_td_chk_def cc_bucket_def CC_STOP_def CC_SKIP_def
  CARD_MASK_def row_desc_def row_ds_def row_ar_def cc_stops_def cc_skips_def cc_line_def
  cc_xds_def cc_ym_def cc_page_def parse_td_cc_def parse_td_def tx_json_def json_opt_def
  ok_result_def error_result_def try_both_def run_def main_def cr_suffixed_def iso_date_def
  json_get_def one_page_world_def no_file_world_def mk_word_def chk_page_words_def
  cc_page_words_def char_of_def str_nat.simps bit_Suc_0_iff

text \<open>With these rules a function that is an argument is rewritten only once it
  is applied to a value.\<close>

lemma ebind_wcong: "x = y \<Longrightarrow> ebind x f = ebind y f"
  by simp

lemma efold_wcong: "xs = ys \<Longrightarrow> s = t \<Longrightarrow> efold f xs s = efold f ys t"
  by simp

lemma fold_wcong: "xs = ys \<Longrightarrow> s = t \<Longrightarrow> fold f xs s = fold f ys t"
  by simp

lemma filter_wcong: "xs = ys \<Longrightarrow> filter P xs = filter P ys"
  by simp

lemma map_wcong: "xs = ys \<Longrightarrow> map f xs = map f ys"
  by simp

lemma find_wcong: "xs = ys \<Longrightarrow> find P xs = find P ys"
  by simp

lemma list_ex_wcong: "xs = ys \<Longrightarrow> list_ex P xs = list_ex P ys"
  by simp

lemma sort_key_wcong: "xs = ys \<Longrightarrow> sort_key f xs = sort_key f ys"
  by simp

lemma map_option_wcong: "x = y \<Longrightarrow> map_option f x = map_option f y"
  by simp

lemmas wcongs = ebind_wcong efold_wcong fold_wcong filter_wcong map_wcong find_wcong
  list_ex_wcong sort_key_wcong map_option_wcong let_weak_cong

section \<open>The matcher returns words of the pattern\<close>


lemma rx_rep_sound:
  "(p', s') \<in> set (rx_rep q gr lo hi (p, s)) \<Longrightarrow>
     \<exists>w. s = w @ s' \<and> list_all q w \<and> lo \<le> length w \<and> (case hi of None \<Rightarrow> True | Some h \<Rightarrow> length w \<le> h)"
proof (induction s arbitrary: lo hi p)
  case Nil
  then show ?case by (auto split: if_splits option.splits)
next
  case (Cons c cs)
  from Cons.prems consider
      (stop) "lo = 0" "(p', s') = (p, c # cs)"
    | (more) "hi \<noteq> Some 0" "q c"
        "(p', s') \<in> set (rx_rep q gr (lo - 1) (map_option (\<lambda>h. h - 1) hi) (Some c, cs))"
    by (auto simp: Let_def split: if_splits)
  then show ?case
  proof cases
    case stop
    then show ?thesis by (auto split: option.splits)
  next
    case more
    from Cons.IH[OF more(3)] obtain w where w: "cs = w @ s'" "list_all q w" "lo - 1 \<le> length w"
      "(case map_option (\<lambda>h. h - 1) hi of None \<Rightarrow> True | Some h \<Rightarrow> length w \<le> h)" by blast
    have "c # cs = (c # w) @ s'" using w by simp
    moreover have "list_all q (c # w)" using w more by simp
    moreover have "lo \<le> length (c # w)" using w by simp
    moreover have "(case hi of None \<Rightarrow> True | Some h \<Rightarrow> length (c # w) \<le> h)"
      using w(4) more(1) by (cases hi) auto
    ultimately show ?thesis by blast
  qed
qed

lemma rx_m_sound:
  "((p', s'), g') \<in> set (rx_m ic r ((p, s), g)) \<Longrightarrow> \<exists>w. s = w @ s' \<and> rx_lang ic r w"
proof (induction r arbitrary: p s g p' s' g')
  case (Chr a)
  then show ?case by (auto split: list.splits if_splits)
next
  case (Cls q)
  then show ?case by (auto split: list.splits if_splits)
next
  case Eps
  then show ?case by auto
next
  case (Seq r1 r2)
  from Seq.prems obtain p1 s1 g1 where
    a: "((p1, s1), g1) \<in> set (rx_m ic r1 ((p, s), g))" and
    b: "((p', s'), g') \<in> set (rx_m ic r2 ((p1, s1), g1))" by auto
  from Seq.IH(1)[OF a] obtain u where u: "s = u @ s1" "rx_lang ic r1 u" by blast
  from Seq.IH(2)[OF b] obtain v where v: "s1 = v @ s'" "rx_lang ic r2 v" by blast
  have "s = (u @ v) @ s'" using u v by simp
  then show ?case using u v by (metis rx_lang.simps(4))
next
  case (Alt r1 r2)
  then show ?case by (auto; blast)
next
  case (Rep q gr lo hi)
  then have "(p', s') \<in> set (rx_rep (ci ic q) gr lo hi (p, s))" by auto
  from rx_rep_sound[OF this] show ?case by auto
next
  case (Grp n r)
  then show ?case by (auto; blast)
next
  case Bol
  then show ?case by (auto split: if_splits)
next
  case Eol
  then show ?case by (auto split: if_splits)
next
  case Wordb
  then show ?case by (auto split: if_splits)
qed

lemma rx_m_Seq_iff:
  "x \<in> set (rx_m ic (Seq a b) st) \<longleftrightarrow> (\<exists>y \<in> set (rx_m ic a st). x \<in> set (rx_m ic b y))"
  by auto

lemma rx_m_Grp_sound:
  assumes "x \<in> set (rx_m ic (Grp n r) ((p, s), g))"
  shows "\<exists>w. rx_lang ic r w \<and> s = w @ snd (fst x) \<and> map_of (snd x) n = Some w"
proof -
  from assms obtain p' s' g' where
    a: "((p', s'), g') \<in> set (rx_m ic r ((p, s), g))" and
    x: "x = ((p', s'), (n, take (length s - length s') s) # g')" by auto
  from rx_m_sound[OF a] obtain w where w: "s = w @ s'" "rx_lang ic r w" by blast
  then have "take (length s - length s') s = w" by simp
  with x w show ?thesis by simp
qed

section \<open>Characters and strings\<close>


lemma char_eq_code: "(c = d) = ((of_char c :: nat) = of_char d)"
  by (metis of_char_eq_iff)

lemma of_char_lt_256: "(of_char c :: nat) < 256"
  by (rule nat_of_char_less_256)

lemma of_char_lower_char:
  "(of_char (lower_char c) :: nat) =
     (if (65 \<le> (of_char c :: nat) \<and> (of_char c :: nat) \<le> 90) \<or>
         (192 \<le> (of_char c :: nat) \<and> (of_char c :: nat) \<le> 222 \<and> (of_char c :: nat) \<noteq> 215)
      then of_char c + 32 else of_char c)"
  by (auto simp: lower_char_def Let_def)

lemma of_char_upper_az:
  "(of_char (upper_az c) :: nat) =
     (if 97 \<le> (of_char c :: nat) \<and> (of_char c :: nat) \<le> 122 then of_char c - 32 else of_char c)"
  by (auto simp: upper_az_def is_lower_az_def Let_def)

lemma ci_is_digit [simp]: "ci ic is_digit c = is_digit c"
  by (auto simp: ci_def is_digit_def Let_def of_char_lower_char of_char_upper_az split: if_splits)

lemma ci_is_space [simp]: "ci ic is_space c = is_space c"
  by (auto simp: ci_def is_space_def Let_def of_char_lower_char of_char_upper_az split: if_splits)

lemma ci_digit_comma [simp]:
  "ci ic (\<lambda>c. is_digit c \<or> c = CHR '','') c = (is_digit c \<or> c = CHR '','')"
  by (auto simp: ci_def is_digit_def Let_def char_eq_code of_char_lower_char of_char_upper_az split: if_splits)

lemma ci_minus [simp]: "ci ic (\<lambda>x. x = CHR ''-'') c = (c = CHR ''-'')"
  by (auto simp: ci_def char_eq_code of_char_lower_char of_char_upper_az split: if_splits)

lemma ci_dot [simp]: "ci ic (\<lambda>x. x = CHR ''.'') c = (c = CHR ''.'')"
  by (auto simp: ci_def char_eq_code of_char_lower_char of_char_upper_az split: if_splits)

lemma ci_C [simp]: "ci True (\<lambda>x. x = CHR ''C'') c = (c = CHR ''C'' \<or> c = CHR ''c'')"
  by (auto simp: ci_def char_eq_code of_char_lower_char of_char_upper_az split: if_splits)

lemma ci_R [simp]: "ci True (\<lambda>x. x = CHR ''R'') c = (c = CHR ''R'' \<or> c = CHR ''r'')"
  by (auto simp: ci_def char_eq_code of_char_lower_char of_char_upper_az split: if_splits)


lemma replace_go_char:
  "replace_go [a] [] 0 s = filter (\<lambda>c. c \<noteq> a) s"
  by (induction s) auto

lemma py_replace_char: "py_replace s [a] [] = filter (\<lambda>c. c \<noteq> a) s"
  by (simp add: py_replace_def replace_go_char)

lemma dropWhile_id: "s = [] \<or> \<not> P (hd s) \<Longrightarrow> dropWhile P s = s"
  by (cases s) auto

lemma py_strip_id:
  assumes "s \<noteq> []" "\<not> is_space (hd s)" "\<not> is_space (last s)"
  shows "py_strip s = s"
proof -
  have "dropWhile is_space s = s" using assms by (simp add: dropWhile_id)
  moreover have "dropWhile is_space (rev s) = rev s"
    using assms by (intro dropWhile_id) (simp add: hd_rev)
  ultimately show ?thesis by (simp add: py_strip_def)
qed

lemma py_strip_snoc_space:
  assumes "s \<noteq> []" "\<not> is_space (hd s)" "\<not> is_space (last s)" "is_space c"
  shows "py_strip (s @ [c]) = s"
proof -
  have "dropWhile is_space (s @ [c]) = s @ [c]" using assms by (intro dropWhile_id) simp
  moreover have "dropWhile is_space (rev s) = rev s"
    using assms by (intro dropWhile_id) (simp add: hd_rev)
  ultimately show ?thesis using assms by (simp add: py_strip_def)
qed

lemma numch_upper: "numch c \<Longrightarrow> upper_char c = [c]"
  by (auto simp: numch_def upper_char_def is_digit_def Let_def char_eq_code)

lemma is_space_upper: "is_space c \<Longrightarrow> upper_char c = [c]"
  by (auto simp: upper_char_def is_space_def Let_def)

lemma numch_not_space: "numch c \<Longrightarrow> \<not> is_space c"
  by (auto simp: numch_def is_space_def is_digit_def Let_def char_eq_code)

lemma numch_not_C: "numch c \<Longrightarrow> c \<noteq> CHR ''C''"
  by (auto simp: numch_def is_digit_def Let_def char_eq_code)

lemma py_upper_append: "py_upper (u @ v) = py_upper u @ py_upper v"
  by (simp add: py_upper_def)

lemma py_upper_numch: "list_all numch s \<Longrightarrow> py_upper s = s"
  by (induction s) (auto simp: py_upper_def numch_upper)

lemma py_in_numch: "list_all numch u \<Longrightarrow> py_in ''CR'' (u @ t) = py_in ''CR'' t"
  by (induction u) (auto simp: numch_not_C)

lemma replace_CR_numch:
  "list_all numch u \<Longrightarrow> replace_go ''CR'' [] 0 (u @ t) = u @ replace_go ''CR'' [] 0 t"
  by (induction u) (auto simp: numch_not_C)

lemma nat_of_digits_snoc: "nat_of_digits (ds @ [d]) = 10 * nat_of_digits ds + digit_val d"
  by (simp add: nat_of_digits_def)

lemma digit_val_zero: "is_digit d \<Longrightarrow> (digit_val d = 0) = (d = CHR ''0'')"
  by (auto simp: is_digit_def digit_val_def Let_def char_eq_code)

lemma nat_of_digits_zero:
  "list_all is_digit ds \<Longrightarrow> (nat_of_digits ds = 0) = (\<forall>d \<in> set ds. d = CHR ''0'')"
proof (induction ds rule: rev_induct)
  case Nil
  then show ?case by (simp add: nat_of_digits_def)
next
  case (snoc d ds)
  then show ?case by (auto simp: nat_of_digits_snoc digit_val_zero)
qed

lemma takeWhile_digits_dot:
  "list_all is_digit ds \<Longrightarrow> takeWhile is_digit (ds @ CHR ''.'' # r) = ds"
  by (induction ds) (auto simp: is_digit_def Let_def)

lemma dropWhile_digits_dot:
  "list_all is_digit ds \<Longrightarrow> dropWhile is_digit (ds @ CHR ''.'' # r) = CHR ''.'' # r"
  by (induction ds) (auto simp: is_digit_def Let_def)

lemma digit_not_sign: "is_digit c \<Longrightarrow> c \<noteq> CHR ''-'' \<and> c \<noteq> CHR ''+'' \<and> c \<noteq> CHR ''.'' \<and> c \<noteq> CHR '',''"
  by (auto simp: is_digit_def Let_def char_eq_code)

lemma float_2dp_unsigned:
  assumes "list_all is_digit ds" "is_digit a" "is_digit b"
  shows "float_2dp (ds @ CHR ''.'' # [a, b]) = Some (int (100 * nat_of_digits ds + nat_of_digits [a, b]))"
proof -
  have "\<not> py_startswith (ds @ CHR ''.'' # [a, b]) ''-''" "\<not> py_startswith (ds @ CHR ''.'' # [a, b]) ''+''"
    using assms by (cases ds; auto simp: digit_not_sign)+
  then show ?thesis
    using assms by (simp add: float_2dp_def Let_def takeWhile_digits_dot dropWhile_digits_dot)
qed

lemma float_2dp_minus:
  assumes "list_all is_digit ds" "is_digit a" "is_digit b"
  shows "float_2dp (CHR ''-'' # ds @ CHR ''.'' # [a, b]) = Some (- int (100 * nat_of_digits ds + nat_of_digits [a, b]))"
  using assms by (simp add: float_2dp_def Let_def takeWhile_digits_dot dropWhile_digits_dot)

section \<open>The amount of a BMO line\<close>


lemma rx_lang_seqs_Nil: "rx_lang ic (seqs []) w = (w = [])"
  by (simp add: seqs_def)

lemma rx_lang_seqs_Cons:
  "rx_lang ic (seqs (r # rs)) w = (\<exists>u v. w = u @ v \<and> rx_lang ic r u \<and> rx_lang ic (seqs rs) v)"
  by (simp add: seqs_def)

lemma rx_lang_opt: "rx_lang ic (opt r) w = (rx_lang ic r w \<or> w = [])"
  by (simp add: opt_def)

lemma length2E: "length dd = 2 \<Longrightarrow> \<exists>a b. dd = [a, b]"
  by (cases dd; cases "tl dd"; auto)

lemma amount_tok_shape:
  assumes "rx_lang True amount_tok w"
  shows "\<exists>sg ds a b t. w = sg @ ds @ CHR ''.'' # [a, b] @ t \<and> (sg = [] \<or> sg = ''-'') \<and> ds \<noteq> [] \<and>
           list_all (\<lambda>c. is_digit c \<or> c = CHR '','') ds \<and> is_digit a \<and> is_digit b \<and> cr_part t"
proof -
  from assms obtain sg ds dot dd t where
    w: "w = sg @ ds @ dot @ dd @ t" and
    sg: "rx_lang True (opt (Chr CHR ''-'')) sg" and
    ds: "rx_lang True (Rep (\<lambda>c. is_digit c \<or> c = CHR '','') True 1 None) ds" and
    dot: "rx_lang True (Chr CHR ''.'') dot" and
    dd: "rx_lang True (Rep is_digit True 2 (Some 2)) dd" and
    t: "rx_lang True (opt (seqs [Rep is_space True 0 (Some 1), Chr CHR ''C'', Chr CHR ''R''])) t"
    unfolding amount_tok_def rx_lang_seqs_Cons rx_lang_seqs_Nil by auto
  have sg': "sg = [] \<or> sg = ''-''" using sg by (auto simp: rx_lang_opt)
  have ds': "ds \<noteq> []" "list_all (\<lambda>c. is_digit c \<or> c = CHR '','') ds"
    using ds by (auto simp: list_all_iff)
  have dot': "dot = ''.''" using dot by auto
  from dd have "length dd = 2" "list_all is_digit dd" by (auto simp: list_all_iff)
  then obtain a b where ab: "dd = [a, b]" "is_digit a" "is_digit b"
    using length2E by fastforce
  have crp: "cr_part t"
  proof (cases "t = []")
    case True
    then show ?thesis by (simp add: cr_part_def)
  next
    case False
    with t obtain sp c r where
      "t = sp @ [c] @ [r]" "list_all is_space sp" "length sp \<le> 1"
      "c = CHR ''C'' \<or> c = CHR ''c''" "r = CHR ''R'' \<or> r = CHR ''r''"
      unfolding rx_lang_opt rx_lang_seqs_Cons rx_lang_seqs_Nil by (auto simp: list_all_iff)
    then show ?thesis by (cases sp) (auto simp: cr_part_def)
  qed
  have "w = sg @ ds @ CHR ''.'' # [a, b] @ t" using w dot' ab by simp
  with sg' ds' ab crp show ?thesis by blast
qed


lemma cr_part_no_comma: "cr_part t \<Longrightarrow> filter (\<lambda>c. c \<noteq> CHR '','') t = t \<and> filter (\<lambda>c. c \<noteq> CHR ''$'') t = t"
  by (auto simp: cr_part_def is_space_def Let_def char_eq_code)

lemma numch_filter_dollar: "list_all numch u \<Longrightarrow> filter (\<lambda>c. c \<noteq> CHR ''$'') u = u"
  by (induction u) (auto simp: numch_def is_digit_def Let_def char_eq_code)

lemma digits_of_filter_comma:
  "list_all (\<lambda>c. is_digit c \<or> c = CHR '','') ds \<Longrightarrow> list_all is_digit (filter (\<lambda>c. c \<noteq> CHR '','') ds)"
  by (induction ds) auto

lemma upper_char_CR:
  "upper_char CHR ''C'' = ''C''" "upper_char CHR ''c'' = ''C''"
  "upper_char CHR ''R'' = ''R''" "upper_char CHR ''r'' = ''R''"
  by (simp_all add: upper_char_def char_eq_code)

text \<open>What \<open>_bmo_amt\<close> does after the commas are gone: the numeral \<open>u\<close> followed by
  the suffix \<open>t\<close>.\<close>

lemma bmo_amt_tail:
  assumes u: "list_all numch u" "u \<noteq> []" and t: "cr_part t" and v: "float_2dp u = Some v"
  shows "(let s = py_strip (u @ t); cr = py_in ''CR'' (py_upper s)
          in ebind (py_float (py_strip (py_replace (py_upper s) ''CR'' [])))
               (\<lambda>n. Inr (if cr then n else - n))) = Inr (if t \<noteq> [] then v else - v)"
proof -
  have hd_u: "\<not> is_space (hd u)" and last_u: "\<not> is_space (last u)"
    using u by (auto simp: list_all_iff numch_not_space)
  have fl: "py_float u = Inr v" using v by (simp add: py_float_def)
  have su: "py_strip u = u" using u hd_u last_u by (simp add: py_strip_id)
  from t consider (none) "t = []"
    | (cr) c r where "c = CHR ''C'' \<or> c = CHR ''c''" "r = CHR ''R'' \<or> r = CHR ''r''" "t = [c, r]"
    | (spcr) sp c r where "is_space sp" "c = CHR ''C'' \<or> c = CHR ''c''" "r = CHR ''R'' \<or> r = CHR ''r''"
        "t = [sp, c, r]"
    unfolding cr_part_def by (elim disjE exE conjE) simp_all
  then show ?thesis
  proof cases
    case none
    have "py_in ''CR'' u = py_in ''CR'' (u @ [])" by simp
    also have "\<dots> = False" using u by (subst py_in_numch) auto
    finally have nin: "\<not> py_in ''CR'' u" by simp
    have "replace_go ''CR'' [] 0 (u @ []) = u @ replace_go ''CR'' [] 0 []"
      using u(1) by (rule replace_CR_numch)
    then have rp: "py_replace u ''CR'' [] = u" by (simp add: py_replace_def)
    show ?thesis using none u su nin rp fl
      by (simp add: Let_def py_upper_numch ebind_def)
  next
    case cr
    have last_t: "\<not> is_space (last (u @ t))" using cr by (auto simp: is_space_def Let_def)
    have hd_t: "\<not> is_space (hd (u @ t))" using u hd_u by simp
    have st: "py_strip (u @ t) = u @ t" using u hd_t last_t by (simp add: py_strip_id)
    have "py_upper t = ''CR''" using cr by (auto simp: py_upper_def upper_char_CR)
    then have up: "py_upper (u @ t) = u @ ''CR''"
      using u by (simp add: py_upper_append py_upper_numch)
    have isin: "py_in ''CR'' (u @ ''CR'')" using u by (simp add: py_in_numch)
    have "replace_go ''CR'' [] 0 (u @ ''CR'') = u @ replace_go ''CR'' [] 0 ''CR''"
      using u(1) by (rule replace_CR_numch)
    then have rp: "py_replace (u @ ''CR'') ''CR'' [] = u" by (simp add: py_replace_def)
    show ?thesis using cr st up isin rp su fl by (simp add: Let_def ebind_def)
  next
    case spcr
    have last_t: "\<not> is_space (last (u @ t))" using spcr by (auto simp: is_space_def Let_def)
    have hd_t: "\<not> is_space (hd (u @ t))" using u hd_u by simp
    have st: "py_strip (u @ t) = u @ t" using u hd_t last_t by (simp add: py_strip_id)
    have "py_upper t = sp # ''CR''" using spcr by (auto simp: py_upper_def upper_char_CR is_space_upper)
    then have up: "py_upper (u @ t) = u @ sp # ''CR''"
      using u by (simp add: py_upper_append py_upper_numch)
    have spC: "sp \<noteq> CHR ''C''" using spcr by (auto simp: is_space_def Let_def)
    have isin: "py_in ''CR'' (u @ sp # ''CR'')" using u spC by (simp add: py_in_numch)
    have "replace_go ''CR'' [] 0 (u @ sp # ''CR'') = u @ replace_go ''CR'' [] 0 (sp # ''CR'')"
      using u(1) by (rule replace_CR_numch)
    then have rp: "py_replace (u @ sp # ''CR'') ''CR'' [] = u @ [sp]" using spC by (simp add: py_replace_def)
    have s2: "py_strip (u @ [sp]) = u" using u hd_u last_u spcr by (simp add: py_strip_snoc_space)
    show ?thesis using spcr st up isin rp s2 fl by (simp add: Let_def ebind_def)
  qed
qed


lemma rx_m_seqs_Nil: "rx_m ic (seqs []) st = [st]"
  by (simp add: seqs_def)

lemma rx_m_seqs_Cons:
  "x \<in> set (rx_m ic (seqs (r # rs)) st) \<longleftrightarrow> (\<exists>y \<in> set (rx_m ic r st). x \<in> set (rx_m ic (seqs rs) y))"
  by (simp add: seqs_def)

lemma rx_m_Wordb_last: "x \<in> set (rx_m ic (seqs [Wordb]) y) \<Longrightarrow> x = y"
  by (cases y) (auto simp: seqs_def split: if_splits)

lemma re_match_in_set:
  assumes "re_match ic r s = Some m"
  shows "\<exists>x \<in> set (rx_m ic r ((None, s), [])). groups m = snd x"
  using assms by (auto simp: re_match_def re_match_at_def mk_match_def split: list.splits)

lemma BMO_TRANS_group4:
  assumes "re_match True BMO_TRANS s = Some m"
  shows "rx_lang True amount_tok (m_group m 4)"
proof -
  from re_match_in_set[OF assms] obtain x where
    x: "x \<in> set (rx_m True BMO_TRANS ((None, s), []))" and g: "groups m = snd x" by blast
  from x obtain y7 y8 where
    y8: "y8 \<in> set (rx_m True (Grp 4 amount_tok) y7)" and
    xw: "x \<in> set (rx_m True (seqs [Wordb]) y8)"
    unfolding BMO_TRANS_def rx_m_seqs_Cons by blast
  from xw have "x = y8" by (rule rx_m_Wordb_last)
  moreover obtain p s' g' where "y7 = ((p, s'), g')" by (metis surj_pair)
  ultimately have "x \<in> set (rx_m True (Grp 4 amount_tok) ((p, s'), g'))" using y8 by simp
  from rx_m_Grp_sound[OF this] obtain w where "rx_lang True amount_tok w" "map_of (snd x) 4 = Some w"
    by blast
  then show ?thesis using g by (simp add: m_group_def)
qed

text \<open>The amount of a numeral of the shape of \<open>amount_tok\<close>.\<close>

lemma digit_or_comma_not_minus:
  "is_digit c \<or> c = CHR '','' \<Longrightarrow> c \<noteq> CHR ''-''"
  by (auto simp: is_digit_def Let_def char_eq_code)

lemma bmo_amt_shape:
  assumes sg: "sg = [] \<or> sg = ''-''" and ds: "ds \<noteq> []" "list_all (\<lambda>c. is_digit c \<or> c = CHR '','') ds"
    and ab: "is_digit a" "is_digit b" and t: "cr_part t"
  shows "bmo_amt (sg @ ds @ CHR ''.'' # [a, b] @ t) =
           Inr ((if t \<noteq> [] then 1 else - 1) * (if sg = [] then 1 else - 1) *
                int (100 * nat_of_digits (filter (\<lambda>c. c \<noteq> CHR '','') ds) + nat_of_digits [a, b]))"
proof -
  define ds' where "ds' = filter (\<lambda>c. c \<noteq> CHR '','') ds"
  define u where "u = sg @ ds' @ CHR ''.'' # [a, b]"
  define n where "n = 100 * nat_of_digits ds' + nat_of_digits [a, b]"
  have dig: "list_all is_digit ds'" using ds unfolding ds'_def by (simp add: digits_of_filter_comma)
  have sgc: "filter (\<lambda>c. c \<noteq> CHR '','') sg = sg" using sg by auto
  have abc: "a \<noteq> CHR '',''" "b \<noteq> CHR '',''" using ab by (auto simp: digit_not_sign)
  have f1: "filter (\<lambda>c. c \<noteq> CHR '','') (sg @ ds @ CHR ''.'' # [a, b] @ t) = u @ t"
    using sgc abc cr_part_no_comma[OF t] by (simp add: u_def ds'_def)
  have nu: "list_all numch u"
    using sg dig ab unfolding u_def by (auto simp: numch_def list_all_iff)
  have f2: "filter (\<lambda>c. c \<noteq> CHR ''$'') (u @ t) = u @ t"
    using numch_filter_dollar[OF nu] cr_part_no_comma[OF t] by simp
  have une: "u \<noteq> []" by (simp add: u_def)
  have fl: "float_2dp u = Some ((if sg = [] then 1 else - 1) * int n)"
  proof (cases "sg = []")
    case True
    then show ?thesis using float_2dp_unsigned[OF dig ab] by (simp add: u_def n_def)
  next
    case False
    then have "sg = ''-''" using sg by simp
    then show ?thesis using float_2dp_minus[OF dig ab] by (simp add: u_def n_def)
  qed
  have "bmo_amt (sg @ ds @ CHR ''.'' # [a, b] @ t) =
          (let s = py_strip (u @ t); cr = py_in ''CR'' (py_upper s)
           in ebind (py_float (py_strip (py_replace (py_upper s) ''CR'' [])))
                (\<lambda>n. Inr (if cr then n else - n)))"
    unfolding bmo_amt_def py_replace_char f1 f2 ..
  also have "\<dots> = Inr (if t \<noteq> [] then (if sg = [] then 1 else - 1) * int n
                     else - ((if sg = [] then 1 else - 1) * int n))"
    by (rule bmo_amt_tail[OF nu une t fl])
  finally show ?thesis by (simp add: n_def ds'_def)
qed


lemma cr_part_no_digit: "cr_part t \<Longrightarrow> c \<in> set t \<Longrightarrow> \<not> is_digit c"
  by (auto simp: cr_part_def is_digit_def is_space_def Let_def)

lemma cr_suffixed_shape:
  assumes ab: "is_digit a" "is_digit b" and t: "cr_part t"
  shows "cr_suffixed (pre @ CHR ''.'' # [a, b] @ t) = (t \<noteq> [])"
proof -
  from t consider (none) "t = []"
    | (cr) c r where "c = CHR ''C'' \<or> c = CHR ''c''" "r = CHR ''R'' \<or> r = CHR ''r''" "t = [c, r]"
    | (spcr) sp c r where "is_space sp" "c = CHR ''C'' \<or> c = CHR ''c''" "r = CHR ''R'' \<or> r = CHR ''r''"
        "t = [sp, c, r]"
    unfolding cr_part_def by (elim disjE exE conjE) simp_all
  then show ?thesis
  proof cases
    case none
    have "py_upper [a, b] = [a, b]" using ab by (intro py_upper_numch) (simp add: numch_def)
    moreover have "a \<noteq> CHR ''C''" using ab by (auto simp: is_digit_def Let_def)
    ultimately show ?thesis using none by (simp add: cr_suffixed_def)
  next
    case cr
    have "py_upper [c, r] = ''CR''" using cr by (auto simp: py_upper_def upper_char_CR)
    then show ?thesis using cr by (simp add: cr_suffixed_def)
  next
    case spcr
    have "py_upper [c, r] = ''CR''" using spcr by (auto simp: py_upper_def upper_char_CR)
    then show ?thesis using spcr by (simp add: cr_suffixed_def)
  qed
qed

lemma nonzero_digits_value:
  assumes ds: "list_all (\<lambda>c. is_digit c \<or> c = CHR '','') ds" and ab: "is_digit a" "is_digit b"
    and sg: "sg = [] \<or> sg = ''-''" and t: "cr_part t"
  shows "list_ex (\<lambda>d. is_digit d \<and> d \<noteq> CHR ''0'') (sg @ ds @ CHR ''.'' # [a, b] @ t) =
         (0 < 100 * nat_of_digits (filter (\<lambda>c. c \<noteq> CHR '','') ds) + nat_of_digits [a, b])"
proof -
  have dig: "list_all is_digit (filter (\<lambda>c. c \<noteq> CHR '','') ds)"
    using ds by (simp add: digits_of_filter_comma)
  have z1: "(nat_of_digits (filter (\<lambda>c. c \<noteq> CHR '','') ds) = 0) =
            (\<forall>d \<in> set ds. d \<noteq> CHR '','' \<longrightarrow> d = CHR ''0'')"
    using nat_of_digits_zero[OF dig] by auto
  have z2: "(nat_of_digits [a, b] = 0) = (a = CHR ''0'' \<and> b = CHR ''0'')"
    using nat_of_digits_zero[of "[a, b]"] ab by auto
  have nsg: "\<not> list_ex (\<lambda>d. is_digit d \<and> d \<noteq> CHR ''0'') sg"
    using sg by (auto simp: is_digit_def Let_def)
  have nt: "\<not> list_ex (\<lambda>d. is_digit d \<and> d \<noteq> CHR ''0'') t"
    using cr_part_no_digit[OF t] by (auto simp: list_ex_iff)
  have ndot: "\<not> is_digit CHR ''.''" by (simp add: is_digit_def)
  have cd: "\<And>d. d \<in> set ds \<Longrightarrow> (d \<noteq> CHR '','') = is_digit d"
    using ds digit_not_sign by (auto simp: list_all_iff)
  have "list_ex (\<lambda>d. is_digit d \<and> d \<noteq> CHR ''0'') (sg @ ds @ CHR ''.'' # [a, b] @ t) =
        ((\<exists>d \<in> set ds. is_digit d \<and> d \<noteq> CHR ''0'') \<or> a \<noteq> CHR ''0'' \<or> b \<noteq> CHR ''0'')"
    using nsg nt ndot ab by (auto simp: list_ex_iff)
  also have "\<dots> = (\<not> (nat_of_digits (filter (\<lambda>c. c \<noteq> CHR '','') ds) = 0 \<and> nat_of_digits [a, b] = 0))"
    unfolding z1 z2 using cd by auto
  finally show ?thesis by auto
qed

lemma startswith_minus_shape:
  assumes ds: "ds \<noteq> []" "list_all (\<lambda>c. is_digit c \<or> c = CHR '','') ds" and sg: "sg = [] \<or> sg = ''-''"
  shows "py_startswith (sg @ ds @ r) ''-'' = (sg \<noteq> [])"
proof (cases "sg = []")
  case True
  from ds obtain d ds' where "ds = d # ds'" "is_digit d \<or> d = CHR '',''" by (cases ds) auto
  then show ?thesis using True digit_or_comma_not_minus by auto
next
  case False
  then show ?thesis using sg by auto
qed

text \<open>
  Claim C4, amended. For every BMO line that matches the structural pattern and
  whose numeral has a digit other than 0, the line yields a transaction whose amount is
  not zero, and the amount is positive exactly when one of these holds and not the
  other: the numeral is suffixed \<open>CR\<close> (in any case), the numeral starts with a minus
  sign. So an unsigned numeral gives a negative amount unless it is suffixed \<open>CR\<close>, in
  which case the amount is positive; a leading minus sign, which the pattern admits,
  reverses both.
\<close>

theorem bmo_amount_sign:
  assumes m: "re_match True BMO_TRANS (py_strip line) = Some m"
    and nz: "list_ex (\<lambda>d. is_digit d \<and> d \<noteq> CHR ''0'') (m_group m 4)"
  shows "\<exists>t. bmo_line fmt sm sy line = Inr (Some t) \<and> Amount t \<noteq> 0 \<and>
           (0 < Amount t) = (cr_suffixed (m_group m 4) \<noteq> py_startswith (m_group m 4) ''-'')"
proof -
  from amount_tok_shape[OF BMO_TRANS_group4[OF m]] obtain sg ds a b t where
    w: "m_group m 4 = sg @ ds @ CHR ''.'' # [a, b] @ t" and sg: "sg = [] \<or> sg = ''-''" and
    ds: "ds \<noteq> []" "list_all (\<lambda>c. is_digit c \<or> c = CHR '','') ds" and
    ab: "is_digit a" "is_digit b" and t: "cr_part t" by blast
  define n where "n = 100 * nat_of_digits (filter (\<lambda>c. c \<noteq> CHR '','') ds) + nat_of_digits [a, b]"
  define v where "v = (if t \<noteq> [] then 1 else - 1) * (if sg = [] then 1 else - 1) * int n"
  have amt: "bmo_amt (m_group m 4) = Inr v"
    unfolding w v_def n_def by (rule bmo_amt_shape[OF sg ds ab t])
  have "0 < n" using nz nonzero_digits_value[OF ds(2) ab sg t] unfolding w n_def by simp
  then have v0: "v \<noteq> 0" and vpos: "(0 < v) = ((t \<noteq> []) = (sg = []))"
    by (auto simp: v_def)
  have cr: "cr_suffixed (m_group m 4) = (t \<noteq> [])"
    using cr_suffixed_shape[OF ab t, of "sg @ ds"] by (simp add: w)
  have mi: "py_startswith (m_group m 4) ''-'' = (sg \<noteq> [])"
    unfolding w by (rule startswith_minus_shape[OF ds sg])
  obtain d where line: "bmo_line fmt sm sy line =
      Inr (Some \<lparr> Date = bmo_date (m_group m 1) sm sy, Description = d, Amount = v \<rparr>)"
    using m amt by (simp add: bmo_line_def Let_def ebind_def)
  show ?thesis using line v0 vpos cr mi by auto
qed


text \<open>The claim as stated fails on a numeral with a minus sign: the line matches,
  the numeral has no \<open>CR\<close>, and the amount is positive.\<close>

theorem bmo_amount_sign_counterexample:
  "map_option (\<lambda>m. m_group m 4) (re_match True BMO_TRANS (py_strip ''Jan 5 Jan 6 REFUND -45.67'')) = Some ''-45.67''
   \<and> \<not> cr_suffixed ''-45.67''
   \<and> bmo_line ''modern'' 1 2024 ''Jan 5 Jan 6 REFUND -45.67'' =
       Inr (Some \<lparr> Date = ''2024-01-05'', Description = ''REFUND'', Amount = 4567 \<rparr>)"
  by (simp add: ev)

theorem bmo_amount_sign_witness:
  "re_match True BMO_TRANS (py_strip ''Jan 5 Jan 6 FEE 4.50 cr'') =
     Some \<lparr> matched = ''Jan 5 Jan 6 FEE 4.50 cr'',
            groups = [(4, ''4.50 cr''), (3, ''FEE''), (2, ''Jan 6''), (1, ''Jan 5'')] \<rparr>
   \<and> list_ex (\<lambda>d. is_digit d \<and> d \<noteq> CHR ''0'') ''4.50 cr''
   \<and> (\<exists>t. bmo_line ''modern'' 1 2024 ''Jan 5 Jan 6 FEE 4.50 cr'' = Inr (Some t) \<and> Amount t \<noteq> 0 \<and>
          (0 < Amount t) = (cr_suffixed ''4.50 cr'' \<noteq> py_startswith ''4.50 cr'' ''-''))"
proof -
  define M where "M = \<lparr> matched = ''Jan 5 Jan 6 FEE 4.50 cr'',
            groups = [(4, ''4.50 cr''), (3, ''FEE''), (2, ''Jan 6''), (1, ''Jan 5'')] \<rparr>"
  have h1: "re_match True BMO_TRANS (py_strip ''Jan 5 Jan 6 FEE 4.50 cr'') = Some M"
    unfolding M_def by (simp add: ev)
  have g: "m_group M 4 = ''4.50 cr''" by (simp add: M_def m_group_def)
  have h2: "list_ex (\<lambda>d. is_digit d \<and> d \<noteq> CHR ''0'') (m_group M 4)"
    unfolding g by (simp add: ev)
  have h2': "list_ex (\<lambda>d. is_digit d \<and> d \<noteq> CHR ''0'') ''4.50 cr''"
    using h2 unfolding g .
  have "\<exists>t. bmo_line ''modern'' 1 2024 ''Jan 5 Jan 6 FEE 4.50 cr'' = Inr (Some t) \<and> Amount t \<noteq> 0 \<and>
          (0 < Amount t) = (cr_suffixed ''4.50 cr'' \<noteq> py_startswith ''4.50 cr'' ''-'')"
    using bmo_amount_sign[OF h1 h2, of "''modern''" 1 2024] unfolding g .
  with h1[unfolded M_def] h2' show ?thesis by blast
qed

lemma re_match_at_in_set:
  assumes "re_match_at ic r st = Some m"
  shows "\<exists>x \<in> set (rx_m ic r (st, [])). groups m = snd x"
  using assms by (auto simp: re_match_at_def mk_match_def split: list.splits)

lemma re_search_at_match:
  "re_search_at ic r p s = Some m \<Longrightarrow> \<exists>st. re_match_at ic r st = Some m"
  by (induction s arbitrary: p) (auto split: option.splits)

lemma re_search_in_set:
  assumes "re_search ic r s = Some m"
  shows "\<exists>st. \<exists>x \<in> set (rx_m ic r (st, [])). groups m = snd x"
  using assms re_search_at_match re_match_at_in_set unfolding re_search_def by blast

lemma TD_AMT_group1:
  assumes "re_search False TD_AMT s = Some m"
  shows "\<exists>ds a b. m_group m 1 = ds @ CHR ''.'' # [a, b] \<and>
           list_all (\<lambda>c. is_digit c \<or> c = CHR '','') ds \<and> is_digit a \<and> is_digit b"
proof -
  from re_search_in_set[OF assms] obtain st x where
    x: "x \<in> set (rx_m False TD_AMT (st, []))" and g: "groups m = snd x" by blast
  obtain p s' where st: "st = (p, s')" by (cases st)
  from x have "x \<in> set (rx_m False (Grp 1 (seqs [Rep (\<lambda>c. is_digit c \<or> c = CHR '','') True 1 None,
      Chr CHR ''.'', Rep is_digit True 2 (Some 2)])) ((p, s'), []))"
    unfolding TD_AMT_def st .
  from rx_m_Grp_sound[OF this] obtain w where
    w: "rx_lang False (seqs [Rep (\<lambda>c. is_digit c \<or> c = CHR '','') True 1 None,
      Chr CHR ''.'', Rep is_digit True 2 (Some 2)]) w" and mw: "map_of (snd x) 1 = Some w" by blast
  from w obtain ds dot dd where
    "w = ds @ dot @ dd" "rx_lang False (Rep (\<lambda>c. is_digit c \<or> c = CHR '','') True 1 None) ds"
    "rx_lang False (Chr CHR ''.'') dot" "rx_lang False (Rep is_digit True 2 (Some 2)) dd"
    unfolding rx_lang_seqs_Cons rx_lang_seqs_Nil by auto
  moreover from this have "length dd = 2" "list_all is_digit dd" by (auto simp: list_all_iff)
  then obtain a b where "dd = [a, b]" "is_digit a" "is_digit b" using length2E by fastforce
  ultimately have "w = ds @ CHR ''.'' # [a, b]" "list_all (\<lambda>c. is_digit c \<or> c = CHR '','') ds"
    by (auto simp: list_all_iff)
  with \<open>is_digit a\<close> \<open>is_digit b\<close> mw g show ?thesis by (auto simp: m_group_def)
qed

text \<open>\<open>_td_amt\<close> never raises and never returns a negative value.\<close>

lemma td_amt_total: "\<exists>a. td_amt s = Inr a \<and> 0 \<le> a"
proof (cases "re_search False TD_AMT s")
  case None
  then show ?thesis by (simp add: td_amt_def)
next
  case (Some m)
  from TD_AMT_group1[OF Some] obtain ds a b where
    g: "m_group m 1 = ds @ CHR ''.'' # [a, b]" and
    ds: "list_all (\<lambda>c. is_digit c \<or> c = CHR '','') ds" and ab: "is_digit a" "is_digit b" by blast
  have abc: "a \<noteq> CHR '',''" "b \<noteq> CHR '',''" using ab by (auto simp: digit_not_sign)
  have "py_replace (m_group m 1) '','' [] = filter (\<lambda>c. c \<noteq> CHR '','') ds @ CHR ''.'' # [a, b]"
    unfolding g using abc by (simp add: py_replace_char)
  then have "td_amt s = py_float (filter (\<lambda>c. c \<noteq> CHR '','') ds @ CHR ''.'' # [a, b])"
    using Some unfolding td_amt_def by simp
  then show ?thesis
    using float_2dp_unsigned[OF digits_of_filter_comma[OF ds] ab]
    by (simp add: py_float_def)
qed

text \<open>
  Claim C8. A row of the checking layout that passes the description and date filters:
  its two amount fields parse without an exception to values that are not negative;
  with a withdrawal field that is not empty the amount is the negative of the
  withdrawal value; otherwise, with a deposit field that is not empty, it is the deposit
  value; with neither field, or with an amount of zero, the row yields no transaction.
\<close>

theorem chk_row_amount:
  assumes "chk_passes r"
  shows "\<exists>wv dv.
           td_amt (py_strip (concat (r_with r))) = Inr wv \<and> 0 \<le> wv \<and>
           td_amt (py_strip (concat (r_dep r))) = Inr dv \<and> 0 \<le> dv \<and>
           chk_row_tx sm sy r =
             Inr (map_option
                    (\<lambda>a. \<lparr> Date = td_date (m_group (the (chk_dm r)) 1 @ zfill2 (m_group (the (chk_dm r)) 2)) sm sy,
                            Description = py_strip (re_sub False (Rep is_space True 1 None) (\<lambda>m. '' '') (chk_desc r)),
                            Amount = a \<rparr>)
                    (if py_strip (concat (r_with r)) \<noteq> [] then (if wv = 0 then None else Some (- wv))
                     else if py_strip (concat (r_dep r)) \<noteq> [] then (if dv = 0 then None else Some dv)
                     else None))"
proof -
  obtain wv where wv: "td_amt (py_strip (concat (r_with r))) = Inr wv" "0 \<le> wv"
    using td_amt_total by blast
  obtain dv where dv: "td_amt (py_strip (concat (r_dep r))) = Inr dv" "0 \<le> dv"
    using td_amt_total by blast
  from assms obtain dm where dm: "chk_dm r = Some dm" by (auto simp: chk_passes_def)
  have flt: "\<not> (chk_desc r = [] \<or> list_ex (\<lambda>s. py_in s (py_upper (chk_desc r))) CHK_SKIP)"
    using assms by (simp add: chk_passes_def)
  have "chk_row_tx sm sy r =
      Inr (map_option
             (\<lambda>a. \<lparr> Date = td_date (m_group dm 1 @ zfill2 (m_group dm 2)) sm sy,
                     Description = py_strip (re_sub False (Rep is_space True 1 None) (\<lambda>m. '' '') (chk_desc r)),
                     Amount = a \<rparr>)
             (if py_strip (concat (r_with r)) \<noteq> [] then (if wv = 0 then None else Some (- wv))
              else if py_strip (concat (r_dep r)) \<noteq> [] then (if dv = 0 then None else Some dv)
              else None))"
    using flt dm wv dv by (simp add: chk_row_tx_def Let_def ebind_def round2_def)
  with wv dv dm show ?thesis by auto
qed

theorem chk_row_amount_witness:
  "chk_passes \<lparr> r_desc = [''GROCERY'', ''STORE''], r_with = [''50.00''], r_dep = [], r_date = [''JAN15''] \<rparr>
   \<and> chk_row_tx 1 2024 \<lparr> r_desc = [''GROCERY'', ''STORE''], r_with = [''50.00''], r_dep = [], r_date = [''JAN15''] \<rparr>
       = Inr (Some \<lparr> Date = ''2024-01-15'', Description = ''GROCERY STORE'', Amount = - 5000 \<rparr>)"
proof -
  define r where "r = \<lparr> r_desc = [''GROCERY'', ''STORE''], r_with = [''50.00''], r_dep = [], r_date = [''JAN15''] \<rparr>"
  have h: "chk_passes r" unfolding r_def by (simp add: ev)
  have w: "py_strip (concat (r_with r)) = ''50.00''" unfolding r_def by (simp add: ev)
  have a: "td_amt ''50.00'' = Inr 5000" by (simp add: ev)
  have d: "td_date (m_group (the (chk_dm r)) 1 @ zfill2 (m_group (the (chk_dm r)) 2)) 1 2024 = ''2024-01-15''"
    unfolding r_def by (simp add: ev)
  have s: "py_strip (re_sub False (Rep is_space True 1 None) (\<lambda>m. '' '') (chk_desc r)) = ''GROCERY STORE''"
    unfolding r_def by (simp add: ev)
  from chk_row_amount[OF h, of 1 2024] have "chk_row_tx 1 2024 r =
      Inr (Some \<lparr> Date = ''2024-01-15'', Description = ''GROCERY STORE'', Amount = - 5000 \<rparr>)"
    unfolding w a d s by auto
  with h show ?thesis unfolding r_def by simp
qed

text \<open>
  Claim C6, amended. In the credit-card layout the loop over the lines between the
  header and the end-of-table boundary treats a line as follows. A line whose
  description starts with a stop marker ends the loop of the page: neither it nor any
  line after it is classified. A line that is skipped (an empty description, a
  description that starts with a skip label, the description \<open>ACTIVITY\<close>, a masked card
  number) changes nothing, whatever its date and amount. Every other line parses its
  amount text without an exception and becomes a new transaction exactly when its date
  text matches the month and day pattern and its amount is strictly positive;
  otherwise, with a description that is not empty and at least one transaction
  accumulated, its description is appended after a space to the description of the
  last accumulated transaction and no entry is added; otherwise nothing changes. The
  loop then goes on with the next line.
\<close>

theorem cc_lines_classification:
  assumes "row = cc_bucket xa xds xmid line"
  shows "\<exists>an raw'.
           td_amt (row_ar row) = Inr an \<and>
           raw' =
             (if re_search False MONTH_DAY (row_ds row) \<noteq> None \<and> 0 < an then
                raw @ [\<lparr> DateRaw = m_group (the (re_search False MONTH_DAY (row_ds row))) 1 @
                                   zfill2 (m_group (the (re_search False MONTH_DAY (row_ds row))) 2),
                         RawDescription = row_desc row,
                         RawAmount = (if py_startswith (py_strip (row_ar row)) ''-'' then an else - an) \<rparr>]
              else if row_desc row \<noteq> [] \<and> raw \<noteq> [] then
                butlast raw @ [(last raw)\<lparr> RawDescription := RawDescription (last raw) @ '' '' @ row_desc row \<rparr>]
              else raw) \<and>
           (length raw' = Suc (length raw)) = (re_search False MONTH_DAY (row_ds row) \<noteq> None \<and> 0 < an) \<and>
           cc_lines xa xds xmid (line # ls) raw =
             (if cc_stops row then Inr raw
              else if cc_skips row then cc_lines xa xds xmid ls raw
              else cc_lines xa xds xmid ls raw')"
proof -
  obtain an where an: "td_amt (row_ar row) = Inr an" using td_amt_total by blast
  show ?thesis
  proof (cases "re_search False MONTH_DAY (row_ds row)")
    case None
    then show ?thesis using assms an by (auto simp: cc_line_def Let_def ebind_def)
  next
    case (Some m)
    then show ?thesis using assms an by (auto simp: cc_line_def Let_def ebind_def)
  qed
qed

theorem cc_lines_classification_witness:
  "cc_lines 500 150 75
     [[mk_word ''JAN'' 20 120, mk_word ''5'' 40 120, mk_word ''AMAZON'' 150 120,
       mk_word ''MKTPLACE'' 210 120, mk_word ''$45.67'' 500 120],
      [mk_word ''SEATTLE'' 150 135, mk_word ''WA'' 210 135]] []
   = Inr [\<lparr> DateRaw = ''JAN05'', RawDescription = ''AMAZON MKTPLACE SEATTLE WA'', RawAmount = - 4567 \<rparr>]"
proof -
  define line1 where "line1 = [mk_word ''JAN'' 20 120, mk_word ''5'' 40 120, mk_word ''AMAZON'' 150 120,
       mk_word ''MKTPLACE'' 210 120, mk_word ''$45.67'' 500 120]"
  define line2 where "line2 = [mk_word ''SEATTLE'' 150 135, mk_word ''WA'' 210 135]"
  define row1 where "row1 = \<lparr> tx_date = [''JAN'', ''5''], cc_desc = [''AMAZON'', ''MKTPLACE''],
        cc_amount = [mk_word ''$45.67'' 500 120] \<rparr>"
  define row2 where "row2 = \<lparr> tx_date = [], cc_desc = [''SEATTLE'', ''WA''], cc_amount = ([] :: word list) \<rparr>"
  define raw1 where "raw1 = [\<lparr> DateRaw = ''JAN05'', RawDescription = ''AMAZON MKTPLACE'', RawAmount = - 4567 \<rparr>]"
  have b1: "row1 = cc_bucket 500 150 75 line1" unfolding row1_def line1_def by (simp add: ev)
  have b2: "row2 = cc_bucket 500 150 75 line2" unfolding row2_def line2_def by (simp add: ev)
  have a1: "\<not> cc_stops row1" "\<not> cc_skips row1" unfolding row1_def by (simp_all add: ev)
  have a2: "\<not> cc_stops row2" "\<not> cc_skips row2" unfolding row2_def by (simp_all add: ev)
  have e1: "td_amt (row_ar row1) = Inr 4567" unfolding row1_def by (simp add: ev)
  have d1: "re_search False MONTH_DAY (row_ds row1) =
      Some \<lparr> matched = ''JAN5'', groups = [(2, ''5''), (1, ''JAN'')] \<rparr>"
    unfolding row1_def by (simp add: ev)
  have s1: "row_desc row1 = ''AMAZON MKTPLACE''" "\<not> py_startswith (py_strip (row_ar row1)) ''-''"
    unfolding row1_def by (simp_all add: ev)
  have e2: "td_amt (row_ar row2) = Inr 0" unfolding row2_def by (simp add: ev)
  have s2: "row_desc row2 = ''SEATTLE WA''" unfolding row2_def by (simp add: ev)
  have r1: "cc_lines 500 150 75 (line1 # [line2]) [] = cc_lines 500 150 75 [line2] raw1"
    using cc_lines_classification[OF b1, of "[]" "[line2]"] a1 s1(2) unfolding e1 d1 s1(1)
    by (auto simp: m_group_def zfill2_def raw1_def)
  have r2: "cc_lines 500 150 75 (line2 # []) raw1 =
      cc_lines 500 150 75 [] [\<lparr> DateRaw = ''JAN05'', RawDescription = ''AMAZON MKTPLACE SEATTLE WA'', RawAmount = - 4567 \<rparr>]"
    using cc_lines_classification[OF b2, of raw1 "[]"] a2 unfolding e2 s2
    by (auto simp: raw1_def)
  show ?thesis using r1 r2 unfolding line1_def line2_def by simp
qed

text \<open>The claim as stated fails on a line that is skipped: this line is between the
  header and the boundary, its date text matches, its amount is positive, its
  description is not empty and a transaction has been accumulated, yet it neither
  becomes a transaction nor is appended.\<close>

theorem cc_lines_classification_counterexample:
  "re_search False MONTH_DAY (row_ds (cc_bucket 500 150 75
      [mk_word ''JAN'' 20 120, mk_word ''2'' 40 120, mk_word ''PREVIOUS'' 150 120,
       mk_word ''STATEMENT'' 215 120, mk_word ''BALANCE'' 290 120, mk_word ''$120.00'' 500 120])) \<noteq> None \<and>
   td_amt (row_ar (cc_bucket 500 150 75
      [mk_word ''JAN'' 20 120, mk_word ''2'' 40 120, mk_word ''PREVIOUS'' 150 120,
       mk_word ''STATEMENT'' 215 120, mk_word ''BALANCE'' 290 120, mk_word ''$120.00'' 500 120])) = Inr 12000 \<and>
   row_desc (cc_bucket 500 150 75
      [mk_word ''JAN'' 20 120, mk_word ''2'' 40 120, mk_word ''PREVIOUS'' 150 120,
       mk_word ''STATEMENT'' 215 120, mk_word ''BALANCE'' 290 120, mk_word ''$120.00'' 500 120]) =
     ''PREVIOUS STATEMENT BALANCE'' \<and>
   cc_lines 500 150 75
     [[mk_word ''JAN'' 20 120, mk_word ''2'' 40 120, mk_word ''PREVIOUS'' 150 120,
       mk_word ''STATEMENT'' 215 120, mk_word ''BALANCE'' 290 120, mk_word ''$120.00'' 500 120]]
     [\<lparr> DateRaw = ''JAN01'', RawDescription = ''COFFEE'', RawAmount = - 450 \<rparr>]
   = Inr [\<lparr> DateRaw = ''JAN01'', RawDescription = ''COFFEE'', RawAmount = - 450 \<rparr>]"
  by (simp add: ev Let_def cong: wcongs)

text \<open>The whole parser on a page with a continuation line (scenario 5 of the
  specification): the second line has no date and no amount, and its description goes
  to the transaction before it.\<close>

lemma parse_td_cc_continuation:
  "parse_td_cc (one_page_world (Inr None) cc_page_words) ''statement.pdf'' 1 2024 =
     Inr [\<lparr> Date = ''2024-01-05'', Description = ''AMAZON MKTPLACE SEATTLE WA'', Amount = - 4567 \<rparr>,
          \<lparr> Date = ''2024-01-07'', Description = ''PAYMENT'', Amount = 10000 \<rparr>]"
  by (simp add: ev Let_def cong: wcongs)

text \<open>
  Claim C2, amended. For every input path that does not name an existing file, the
  process prints a JSON object whose only field is \<open>error\<close>, with the text
  \<open>File not found:\<close> and the path, and exits with status 1. The object has no
  \<open>transactions\<close> and no \<open>count\<close> field; the output does not depend on any document,
  so no parser is invoked.
\<close>

theorem missing_file_result:
  assumes "path_exists w pdf_path = Inr False"
  shows "main w (prog # pdf_path # rest) =
           (JObj [(''error'', JStr (''File not found: '' @ pdf_path))], 1)"
  using assms by (simp add: main_def run_def)

theorem missing_file_result_witness:
  "path_exists no_file_world ''missing.pdf'' = Inr False \<and>
   main no_file_world [''pdf_parser.py'', ''missing.pdf''] =
     (JObj [(''error'', JStr ''File not found: missing.pdf'')], 1)"
proof -
  have h: "path_exists no_file_world ''missing.pdf'' = Inr False" by (simp add: no_file_world_def)
  from missing_file_result[OF h, of "''pdf_parser.py''" "[]"] h show ?thesis by simp
qed

text \<open>The claim as stated asks for an empty \<open>transactions\<close> list and a \<open>count\<close> of 0:
  the object printed for a missing file has neither field.\<close>

theorem missing_file_counterexample:
  "path_exists no_file_world ''missing.pdf'' = Inr False \<and>
   json_get (fst (main no_file_world [''pdf_parser.py'', ''missing.pdf''])) ''error'' =
     Some (JStr ''File not found: missing.pdf'') \<and>
   json_get (fst (main no_file_world [''pdf_parser.py'', ''missing.pdf''])) ''transactions'' = None \<and>
   json_get (fst (main no_file_world [''pdf_parser.py'', ''missing.pdf''])) ''count'' = None \<and>
   snd (main no_file_world [''pdf_parser.py'', ''missing.pdf'']) = 1"
  by (simp add: main_def run_def no_file_world_def json_get_def)


text \<open>
  Claim C10. With an account that detection leaves unresolved (it returns \<open>None\<close>
  and does not raise), when the BMO parser
  raises and the TD parser returns, the process prints the TD parser's transactions
  with a null account (and their count, no error) and exits with status 0: the default
  \<open>TD CAD Checking\<close> is not applied on this path.
\<close>

theorem bmo_exception_keeps_account_null:
  assumes "path_exists w pdf_path = Inr True"
    and "detect_account pdf_path (case rest of [] \<Rightarrow> None | h # hs \<Rightarrow> Some h) = Inr None"
    and "parse_bmo w pdf_path = Inl e"
    and "parse_td w pdf_path = Inr ts"
  shows "main w (prog # pdf_path # rest) =
           (JObj [(''account'', JNull),
                  (''filename'', JStr (path_name pdf_path)),
                  (''transactions'', JArr (map tx_json ts)),
                  (''count'', JInt (int (length ts))),
                  (''error'', JNull)], 0)"
  using assms by (simp add: main_def run_def try_both_def ebind_def ok_result_def json_opt_def)

text \<open>The default is applied where the BMO parser returns no row and the TD parser
  returns some.\<close>

lemma zero_rows_default_td_checking:
  assumes "path_exists w pdf_path = Inr True"
    and "detect_account pdf_path (case rest of [] \<Rightarrow> None | h # hs \<Rightarrow> Some h) = Inr None"
    and "parse_bmo w pdf_path = Inr []"
    and "parse_td w pdf_path = Inr ts" and "ts \<noteq> []"
  shows "main w (prog # pdf_path # rest) =
           (JObj [(''account'', JStr ''TD CAD Checking''),
                  (''filename'', JStr (path_name pdf_path)),
                  (''transactions'', JArr (map tx_json ts)),
                  (''count'', JInt (int (length ts))),
                  (''error'', JNull)], 0)"
  using assms by (simp add: main_def run_def try_both_def ebind_def ok_result_def json_opt_def)

lemma detect_statement_pdf: "detect_account ''statement.pdf'' None = Inr None"
  by (simp add: ev Let_def cong: wcongs)

theorem bmo_exception_keeps_account_null_witness:
  "path_exists (one_page_world (Inl (LibError ''cannot read the page'')) chk_page_words) ''statement.pdf'' = Inr True \<and>
   detect_account ''statement.pdf'' None = Inr None \<and>
   parse_bmo (one_page_world (Inl (LibError ''cannot read the page'')) chk_page_words) ''statement.pdf'' =
     Inl (LibError ''cannot read the page'') \<and>
   main (one_page_world (Inl (LibError ''cannot read the page'')) chk_page_words) [''pdf_parser.py'', ''statement.pdf''] =
     (JObj [(''account'', JNull),
            (''filename'', JStr ''statement.pdf''),
            (''transactions'', JArr [JObj [(''Date'', JStr ''2026-01-15''), (''Description'', JStr ''RENT''),
                                           (''Amount'', JAmount (- 5000))]]),
            (''count'', JInt 1),
            (''error'', JNull)], 0)"
proof -
  define w where "w = one_page_world (Inl (LibError ''cannot read the page'')) chk_page_words"
  have h1: "path_exists w ''statement.pdf'' = Inr True" by (simp add: w_def one_page_world_def)
  have h2: "detect_account ''statement.pdf'' (case [] :: string list of [] \<Rightarrow> None | h # hs \<Rightarrow> Some h) = Inr None"
    using detect_statement_pdf by simp
  have h3: "parse_bmo w ''statement.pdf'' = Inl (LibError ''cannot read the page'')"
    unfolding w_def by (simp add: ev Let_def cong: wcongs)
  have h4: "parse_td w ''statement.pdf'' =
      Inr [\<lparr> Date = ''2026-01-15'', Description = ''RENT'', Amount = - 5000 \<rparr>]"
    unfolding w_def by (simp add: ev Let_def cong: wcongs)
  have n: "path_name ''statement.pdf'' = ''statement.pdf''" by (simp add: ev)
  from bmo_exception_keeps_account_null[OF h1 h2 h3 h4, of "''pdf_parser.py''"]
  have "main w [''pdf_parser.py'', ''statement.pdf''] =
     (JObj [(''account'', JNull),
            (''filename'', JStr ''statement.pdf''),
            (''transactions'', JArr [JObj [(''Date'', JStr ''2026-01-15''), (''Description'', JStr ''RENT''),
                                           (''Amount'', JAmount (- 5000))]]),
            (''count'', JInt 1),
            (''error'', JNull)], 0)"
    unfolding n by (simp add: tx_json_def)
  with h1 h3 detect_statement_pdf show ?thesis unfolding w_def by simp
qed

text \<open>Detection itself raises for a hint that is not empty and contains no keyword:
  the process then prints the error object and exits with status 1.\<close>

lemma unmatched_hint_raises:
  assumes "hint \<noteq> []" and "list_all (\<lambda>(k, v). \<not> py_in k (py_lower hint)) KEYWORD_MAP"
  shows "detect_account filepath (Some hint) = Inl AttributeError"
proof -
  have "find (\<lambda>(k, v). py_in k (py_lower hint)) KEYWORD_MAP = None"
    using assms(2) by (auto simp: find_None_iff list_all_iff)
  then show ?thesis using assms(1)
    by (simp add: detect_account_def Let_def ACCOUNT_PATTERNS_def)
qed

lemma unmatched_hint_error_result:
  assumes "path_exists w pdf_path = Inr True"
    and "hint \<noteq> []" and "list_all (\<lambda>(k, v). \<not> py_in k (py_lower hint)) KEYWORD_MAP"
  shows "main w (prog # pdf_path # hint # rest) = (error_result w pdf_path AttributeError, 1)"
  using assms(1) unmatched_hint_raises[OF assms(2,3), of pdf_path]
  by (simp add: main_def run_def ebind_def)






section \<open>The dates of the rows\<close>

text \<open>Numerals and the form of a date.\<close>

lemma digit_char_is_digit: "n < 10 \<Longrightarrow> is_digit (digit_char n)"
  by (simp add: is_digit_def digit_char_def Let_def)

lemma str_nat_digits: "list_all is_digit (str_nat n)"
proof (induction n rule: str_nat.induct)
  case (1 n)
  show ?case
  proof (cases "n < 10")
    case True
    then show ?thesis by (subst str_nat.simps) (simp add: digit_char_is_digit)
  next
    case False
    then show ?thesis using 1 by (subst str_nat.simps) (simp add: digit_char_is_digit)
  qed
qed

lemma str_nat_len1: "n < 10 \<Longrightarrow> length (str_nat n) = 1"
  by (subst str_nat.simps) simp

lemma str_nat_len2: "10 \<le> n \<Longrightarrow> n < 100 \<Longrightarrow> length (str_nat n) = 2"
  by (subst str_nat.simps) (simp add: str_nat_len1)

lemma str_nat_len3: "100 \<le> n \<Longrightarrow> n < 1000 \<Longrightarrow> length (str_nat n) = 3"
  by (subst str_nat.simps) (simp add: str_nat_len2)

lemma str_nat_len4: "1000 \<le> n \<Longrightarrow> n < 10000 \<Longrightarrow> length (str_nat n) = 4"
  by (subst str_nat.simps) (simp add: str_nat_len3)

lemma str_int_year:
  assumes "1000 \<le> y" "y \<le> 9999"
  shows "length (str_int y) = 4 \<and> list_all is_digit (str_int y)"
proof -
  have "str_int y = str_nat (nat y)" using assms by (simp add: str_int_def)
  moreover have "length (str_nat (nat y)) = 4" using assms by (intro str_nat_len4) auto
  ultimately show ?thesis by (simp add: str_nat_digits)
qed

lemma fmt02_two_digits:
  assumes "n < 100"
  shows "length (fmt02 n) = 2 \<and> list_all is_digit (fmt02 n)"
proof (cases "n < 10")
  case True
  have "is_digit CHR ''0''" by (simp add: is_digit_def)
  then show ?thesis using True str_nat_len1[OF True] str_nat_digits[of n]
    by (cases "str_nat n") (auto simp: fmt02_def zfill2_def)
next
  case False
  then have "length (str_nat n) = 2" using assms by (intro str_nat_len2) auto
  then show ?thesis using str_nat_digits[of n] by (simp add: fmt02_def zfill2_def)
qed

lemma iso_date_parts:
  assumes "length y = 4" "list_all is_digit y" "length m = 2" "list_all is_digit m"
    "length d = 2" "list_all is_digit d"
  shows "iso_date (y @ ''-'' @ m @ ''-'' @ d)"
  using assms by (simp add: iso_date_def nth_append)

lemma iso_date_fmt:
  assumes "1000 \<le> y" "y \<le> 9999" "mo < 100" "dy < 100"
  shows "iso_date (str_int y @ ''-'' @ fmt02 mo @ ''-'' @ fmt02 dy)"
  using str_int_year[OF assms(1,2)] fmt02_two_digits[OF assms(3)] fmt02_two_digits[OF assms(4)]
  by (intro iso_date_parts) auto

lemma index_of_lt: "index_of x xs = Some i \<Longrightarrow> i < length xs"
  by (induction xs arbitrary: i) (auto split: if_splits)

lemma days_in_month_le: "1 \<le> mo \<Longrightarrow> mo \<le> 12 \<Longrightarrow> days_in_month mo \<le> 31"
proof -
  assume a: "1 \<le> mo" "mo \<le> 12"
  have "list_all (\<lambda>d. d \<le> 31) [31, 28, 31, 30, 31, 30, 31, 31, 30, 31, 30, 31 :: nat]" by simp
  moreover have "mo - 1 < length [31, 28, 31, 30, 31, 30, 31, 31, 30, 31, 30, 31 :: nat]" using a by simp
  ultimately show ?thesis unfolding days_in_month_def list_all_length by blast
qed

lemma strptime_bounds:
  assumes "strptime fmt s = Some (mo, dy)"
  shows "1 \<le> mo \<and> mo \<le> 12 \<and> 1 \<le> dy \<and> dy \<le> 31"
proof -
  from assms obtain m i where
    i: "index_of (py_lower (m_group m 1)) MONTHS = Some i" and mo: "mo = i + 1" and
    dy: "1 \<le> dy" "dy \<le> days_in_month mo"
    by (auto simp: strptime_def Let_def split: option.splits if_splits)
  have "i < 12" using index_of_lt[OF i] by (simp add: MONTHS_def)
  then have "1 \<le> mo" "mo \<le> 12" using mo by auto
  then show ?thesis using dy days_in_month_le[of mo] by auto
qed

text \<open>What each resolver returns for a token it reads, and for one it does not.\<close>

lemma bmo_date_accepted:
  assumes "bmo_md tok = Some (mo, dy)"
  shows "bmo_date tok sm sy =
           str_int (if mo = 12 \<and> sm = 1 then sy - 1 else if mo = 1 \<and> sm = 12 then sy + 1 else sy) @
             ''-'' @ fmt02 mo @ ''-'' @ fmt02 dy"
  using assms by (simp add: bmo_date_def Let_def)

lemma td_date_accepted:
  assumes "td_md raw = Some (mo, dy)"
  shows "td_date raw sm sy =
           str_int (if mo = 12 \<and> sm = 1 then sy - 1 else if mo = 1 \<and> sm = 12 then sy + 1 else sy) @
             ''-'' @ fmt02 mo @ ''-'' @ fmt02 dy"
  using assms by (simp add: td_date_def Let_def)

lemma bmo_md_bounds: "bmo_md tok = Some (mo, dy) \<Longrightarrow> mo \<le> 12 \<and> dy \<le> 31"
  using strptime_bounds by (fastforce simp: bmo_md_def Let_def split: option.splits)

lemma td_md_bounds: "td_md raw = Some (mo, dy) \<Longrightarrow> mo \<le> 12 \<and> dy \<le> 31"
  using strptime_bounds by (fastforce simp: td_md_def)

lemma rolled_year_range:
  assumes "1001 \<le> sy" "sy \<le> 9998"
  shows "1000 \<le> (if a then sy - 1 else if b then sy + 1 else sy)"
    and "(if a then sy - 1 else if b then sy + 1 else sy) \<le> (9999 :: int)"
  using assms by auto

lemma bmo_date_iso:
  assumes "bmo_md tok = Some (mo, dy)" "1001 \<le> sy" "sy \<le> 9998"
  shows "iso_date (bmo_date tok sm sy)"
proof -
  have b: "mo < 100" "dy < 100" using bmo_md_bounds[OF assms(1)] by auto
  show ?thesis unfolding bmo_date_accepted[OF assms(1)]
    by (rule iso_date_fmt[OF rolled_year_range[OF assms(2,3)] b])
qed

lemma td_date_iso:
  assumes "td_md raw = Some (mo, dy)" "1001 \<le> sy" "sy \<le> 9998"
  shows "iso_date (td_date raw sm sy)"
proof -
  have b: "mo < 100" "dy < 100" using td_md_bounds[OF assms(1)] by auto
  show ?thesis unfolding td_date_accepted[OF assms(1)]
    by (rule iso_date_fmt[OF rolled_year_range[OF assms(2,3)] b])
qed

lemma bmo_date_rejected: "bmo_md tok = None \<Longrightarrow> bmo_date tok sm sy = tok"
  by (simp add: bmo_date_def)

lemma td_date_rejected: "td_md raw = None \<Longrightarrow> td_date raw sm sy = raw"
  by (simp add: td_date_def)

lemma bmo_date_iso_or_rejected:
  assumes "1001 \<le> sy" "sy \<le> 9998"
  shows "iso_date (bmo_date tok sm sy) \<or> bmo_md (bmo_date tok sm sy) = None"
proof (cases "bmo_md tok")
  case None
  then show ?thesis by (simp add: bmo_date_rejected)
next
  case (Some md)
  then show ?thesis using bmo_date_iso[OF _ assms] by (cases md) auto
qed

lemma td_date_iso_or_rejected:
  assumes "1001 \<le> sy" "sy \<le> 9998"
  shows "iso_date (td_date raw sm sy) \<or> td_md (td_date raw sm sy) = None"
proof (cases "td_md raw")
  case None
  then show ?thesis by (simp add: td_date_rejected)
next
  case (Some md)
  then show ?thesis using td_date_iso[OF _ assms] by (cases md) auto
qed

















section \<open>A line of the legacy format\<close>



section \<open>Rows of amount zero\<close>


end
